theory Spec2Isabelle
  imports Main "HOL-Library.Multiset" "HOL-Library.FSet"
begin

section \<open>Attribute values and deep equality\<close>

text \<open>
  \<^verbatim>\<open>Record.Get\<close> returns a Go value of type \<^verbatim>\<open>any\<close>. The values modelled are the
  nil interface, booleans, integers and floats with their Go type, strings, slices
  (\<^verbatim>\<open>[]any\<close>) and maps (\<^verbatim>\<open>map[string]any\<close>). A float is a number, an infinity or
  NaN. A slice or a map is nil, or has an address (of its underlying array, of the map
  object) and its elements; the entries of a map are listed in the order they were
  inserted. Values of other Go types (structs, pointers, functions, slices and maps of
  other element types) and cyclic values are outside the model.
\<close>

datatype intKind =
  KInt | KInt8 | KInt16 | KInt32 | KInt64 | KUint | KUint8 | KUint16 | KUint32 | KUint64

datatype floatKind = KFloat32 | KFloat64

datatype float = Finite rat | PosInf | NegInf | NaN

datatype gval =
    VNil
  | VBool bool
  | VInt intKind int
  | VFloat floatKind float
  | VStr string
  | VNilSlice
  | VSlice nat "gval list"
  | VNilMap
  | VMap nat "(string \<times> gval) list"

text \<open>The operator \<^verbatim>\<open>==\<close> on two floats: NaN is equal to nothing.\<close>

fun floatEq :: "float \<Rightarrow> float \<Rightarrow> bool" where
  "floatEq NaN y = False"
| "floatEq x NaN = False"
| "floatEq x y = (x = y)"

text \<open>
  Modelled from the spec: \<^verbatim>\<open>reflect.DeepEqual\<close>, called at line 85, is a function of the
  Go standard library and is not in this repository; the spec calls it deep structural
  equality over nested sequences and mappings. The definition follows the rules the
  library documents, on the values above. Values of different types are never deeply
  equal. Booleans, integers and strings are deeply equal when they are equal, floats when
  \<^verbatim>\<open>==\<close> holds. Slices are deeply equal when they are both nil or both non-nil, they
  have the same length, and either they have the same address or their corresponding
  elements are deeply equal. Maps are deeply equal when they are both nil or both
  non-nil, they have the same length (the number of their keys), and either they are the
  same map object or every key of the first is a key of the second with a deeply equal
  value. \<open>deepEqualElems\<close> is the index loop over a slice, \<open>deepEqualEntries\<close> the
  loop over the keys of the first map with \<^verbatim>\<open>MapIndex\<close> into the second.
\<close>

fun DeepEqual :: "gval \<Rightarrow> gval \<Rightarrow> bool"
  and deepEqualElems :: "gval list \<Rightarrow> gval list \<Rightarrow> bool"
  and deepEqualEntries :: "(string \<times> gval) list \<Rightarrow> (string \<times> gval) list \<Rightarrow> bool"
where
  "DeepEqual VNil y = (case y of VNil \<Rightarrow> True | _ \<Rightarrow> False)"
| "DeepEqual (VBool a) y = (case y of VBool b \<Rightarrow> a = b | _ \<Rightarrow> False)"
| "DeepEqual (VInt k a) y = (case y of VInt k' b \<Rightarrow> k = k' \<and> a = b | _ \<Rightarrow> False)"
| "DeepEqual (VFloat k a) y = (case y of VFloat k' b \<Rightarrow> k = k' \<and> floatEq a b | _ \<Rightarrow> False)"
| "DeepEqual (VStr a) y = (case y of VStr b \<Rightarrow> a = b | _ \<Rightarrow> False)"
| "DeepEqual VNilSlice y = (case y of VNilSlice \<Rightarrow> True | _ \<Rightarrow> False)"
| "DeepEqual (VSlice p xs) y =
     (case y of
        VSlice q ys \<Rightarrow> length xs = length ys \<and> (p = q \<or> deepEqualElems xs ys)
      | _ \<Rightarrow> False)"
| "DeepEqual VNilMap y = (case y of VNilMap \<Rightarrow> True | _ \<Rightarrow> False)"
| "DeepEqual (VMap p m1) y =
     (case y of
        VMap q m2 \<Rightarrow>
          length (remdups (map fst m1)) = length (remdups (map fst m2))
          \<and> (p = q \<or> deepEqualEntries m1 m2)
      | _ \<Rightarrow> False)"
| "deepEqualElems [] ys = True"
| "deepEqualElems (x # xs) [] = False"
| "deepEqualElems (x # xs) (y # ys) = (DeepEqual x y \<and> deepEqualElems xs ys)"
| "deepEqualEntries [] m2 = True"
| "deepEqualEntries ((k, v1) # rest) m2 =
     (case map_of m2 k of
        None \<Rightarrow> False
      | Some v2 \<Rightarrow> DeepEqual v1 v2 \<and> deepEqualEntries rest m2)"






section \<open>Errors\<close>

text \<open>
  A Go \<^verbatim>\<open>error\<close> is a value: \<open>ErrorString\<close> is what \<^verbatim>\<open>errors.New\<close> and
  \<^verbatim>\<open>fmt.Errorf\<close> without \<^verbatim>\<open>%w\<close> build (also any error of the host whose
  content is its message), \<open>ApiError\<close> is PocketBase's API error with its status code,
  message and data, and \<open>WrapError msg err\<close> is what \<^verbatim>\<open>fmt.Errorf\<close> builds with
  \<^verbatim>\<open>%w\<close>: the formatted message and the wrapped error. The data of an API error is
  nothing (\<^verbatim>\<open>nil\<close>), an error, or a map from strings to strings.
\<close>

datatype error =
    ErrorString string
  | ApiError nat string errdata
  | WrapError string error
and errdata =
    NoData
  | ErrData error
  | MapData "(string \<times> string) list"

text \<open>The \<^verbatim>\<open>Error()\<close> method, which \<^verbatim>\<open>%v\<close> and \<^verbatim>\<open>%w\<close> print.\<close>

fun errorMessage :: "error \<Rightarrow> string" where
  "errorMessage (ErrorString s) = s"
| "errorMessage (ApiError code msg d) = msg"
| "errorMessage (WrapError msg err) = msg"

text \<open>
  \<^verbatim>\<open>apis.NewBadRequestError(message, data)\<close> of PocketBase: an API error with status
  400. (PocketBase also normalises the message's capitalisation and final period; the
  model keeps the message as it is passed.)
\<close>

definition NewBadRequestError :: "string \<Rightarrow> errdata \<Rightarrow> error" where
  "NewBadRequestError message d = ApiError 400 message d"

text \<open>\<^verbatim>\<open>fmt.Errorf(prefix + "%w", err)\<close>.\<close>

definition Errorf_w :: "string \<Rightarrow> error \<Rightarrow> error" where
  "Errorf_w prefix err = WrapError (prefix @ errorMessage err) err"

text \<open>\<^verbatim>\<open>%d\<close> of a non-negative position.\<close>

definition digit :: "nat \<Rightarrow> char" where
  "digit n = ''0123456789'' ! n"

function showNat :: "nat \<Rightarrow> string" where
  "showNat n = (if n < 10 then [digit n] else showNat (n div 10) @ [digit (n mod 10)])"
  by pat_completeness auto
termination
  by (relation "measure id") auto

declare showNat.simps [simp del]

section \<open>Records, events and effects\<close>

text \<open>
  The parts of PocketBase the hook reads. A collection has an identifier and a name. A
  record has its identifier (\<^verbatim>\<open>Id\<close>), its collection (\<^verbatim>\<open>Collection()\<close>, a pointer
  that may be nil), the names of its schema's fields in schema order
  (\<^verbatim>\<open>Schema().Fields()\<close>) and its attribute values (\<^verbatim>\<open>Get\<close>).
\<close>

record Collection =
  CollectionId :: string
  CollectionName :: string

record Record =
  RecordId :: string
  RecordCollection :: "Collection option"
  Schema :: "string list"
  Get :: "string \<Rightarrow> gval"

text \<open>
  The state of the host (the database and whatever else the commit and the callbacks
  touch) is a value of an arbitrary type \<open>'w\<close>, passed through the calls in the order
  the hook makes them. \<^verbatim>\<open>e.App.Dao().FindRecordById\<close> reads it; \<^verbatim>\<open>e.Next()\<close>
  and the user callback return an error or nil, and the new state. The event holds the
  record (a pointer, nil is \<open>None\<close>), the app (an interface, nil is \<open>None\<close>; the model
  keeps of it the lookup of a record by collection and record identifier) and the
  continuation \<^verbatim>\<open>Next\<close>. All three calls are taken to return.
\<close>

type_synonym 'w App = "string \<Rightarrow> string \<Rightarrow> 'w \<Rightarrow> error + Record"

record 'w RecordEvent =
  Record :: "Record option"
  App :: "'w App option"
  Next :: "'w \<Rightarrow> error option \<times> 'w"

type_synonym 'w callback = "'w RecordEvent \<Rightarrow> 'w \<Rightarrow> error option \<times> 'w"

text \<open>
  What a run of the hook does: it returns an error or nil, or panics (a nil pointer
  dereference); \<open>calls\<close> lists the calls it made to its collaborators, in order, and
  \<open>world\<close> is the state it leaves.
\<close>

datatype call = FindRecordByIdCall string string | NextCall | UserCallbackCall

datatype ret = Panic | Return "error option"

record 'w HookResult =
  returned :: ret
  calls :: "call list"
  world :: 'w

section \<open>System fields\<close>

text \<open>
  Modelled from the spec: the six names \<^verbatim>\<open>models.SystemFieldId\<close>, ... are constants of
  PocketBase, declared outside this repository. The spec lists them as identifier,
  creation timestamp, modification timestamp, owning-collection identifier,
  owning-collection name and expansion metadata; their values are the names the
  repository's tests delete from an exported record.
\<close>

definition SystemFieldId :: string where "SystemFieldId = ''id''"
definition SystemFieldCreated :: string where "SystemFieldCreated = ''created''"
definition SystemFieldUpdated :: string where "SystemFieldUpdated = ''updated''"
definition SystemFieldCollectionId :: string where "SystemFieldCollectionId = ''collectionId''"
definition SystemFieldCollectionName :: string where "SystemFieldCollectionName = ''collectionName''"
definition SystemFieldExpand :: string where "SystemFieldExpand = ''expand''"

definition isSystemField :: "string \<Rightarrow> bool" where
  "isSystemField fieldName =
     (if fieldName = SystemFieldId \<or> fieldName = SystemFieldCreated
         \<or> fieldName = SystemFieldUpdated \<or> fieldName = SystemFieldCollectionId
         \<or> fieldName = SystemFieldCollectionName \<or> fieldName = SystemFieldExpand
      then True else False)"

section \<open>Parsing the arguments of \<^verbatim>\<open>MakeImmutable\<close>\<close>

text \<open>
  An argument is classified by its dynamic type: a string, a function of the callback's
  type (a function value may be nil), or anything else, of which the model keeps the name
  of its type as \<^verbatim>\<open>%T\<close> prints it.
\<close>

datatype 'w arg =
    AString string
  | AFunc "'w callback option"
  | AOther string

text \<open>
  The loop of lines 32 to 49 over the arguments from position \<open>i\<close> on, with the three
  variables it assigns: the names collected so far, the callback and the parse error.
  The loop is left as soon as a parse error is set.
\<close>

fun parseArgs ::
  "nat \<Rightarrow> 'w arg list \<Rightarrow> string list \<Rightarrow> 'w callback option
     \<Rightarrow> string list \<times> 'w callback option \<times> error option"
where
  "parseArgs i [] immutableFieldNames userCallback = (immutableFieldNames, userCallback, None)"
| "parseArgs i (AString v # args) immutableFieldNames userCallback =
     parseArgs (Suc i) args (immutableFieldNames @ [v]) userCallback"
| "parseArgs i (AFunc v # args) immutableFieldNames userCallback =
     (case userCallback of
        Some cb \<Rightarrow>
          (immutableFieldNames, userCallback,
           Some (ErrorString
             ''pbimmutable.MakeImmutable: only one callback function can be provided''))
      | None \<Rightarrow> parseArgs (Suc i) args immutableFieldNames v)"
| "parseArgs i (AOther T # args) immutableFieldNames userCallback =
     (immutableFieldNames, userCallback,
      Some (ErrorString
        (''pbimmutable.MakeImmutable: invalid argument type '' @ T @ '' at position ''
           @ showNat i)))"

section \<open>The hook\<close>

text \<open>Lines 69 to 79: the fields to check.\<close>

definition fieldsToCheck :: "string list \<Rightarrow> Record \<Rightarrow> string list" where
  "fieldsToCheck immutableFieldNames r =
     (if length immutableFieldNames = 0
      then filter (\<lambda>fieldName. \<not> isSystemField fieldName) (Schema r)
      else immutableFieldNames)"

text \<open>The error of lines 90 to 97.\<close>

definition immutableFieldError :: "string \<Rightarrow> Record \<Rightarrow> error" where
  "immutableFieldError fieldName r =
     NewBadRequestError
       (''Attempt to modify immutable field '' @ [CHR 0x27] @ fieldName @ [CHR 0x27] @ ''.'')
       (MapData [(''field'', fieldName), (''reason'', ''immutable''), (''recordId'', RecordId r)])"

text \<open>
  Lines 81 to 99: the comparison loop over the fields to check, with the original record
  and the event's record. It returns the error of the first field it rejects, or nothing.
\<close>

fun checkFields :: "string list \<Rightarrow> Record \<Rightarrow> Record \<Rightarrow> error option" where
  "checkFields [] originalRecord r = None"
| "checkFields (fieldName # rest) originalRecord r =
     (if \<not> DeepEqual (Get originalRecord fieldName) (Get r fieldName) then
        (if isSystemField fieldName \<and> fieldName = SystemFieldUpdated
         then checkFields rest originalRecord r
         else Some (immutableFieldError fieldName r))
      else checkFields rest originalRecord r)"

text \<open>
  Lines 104 to 122: the commit through \<^verbatim>\<open>e.Next()\<close> and the user callback, after the
  calls \<open>cs\<close> made so far.
\<close>

definition commitAndCallback ::
  "'w callback option \<Rightarrow> 'w RecordEvent \<Rightarrow> 'w \<Rightarrow> call list \<Rightarrow> 'w HookResult"
where
  "commitAndCallback userCallback e w cs =
     (case Next e w of
        (Some err, w1) \<Rightarrow>
          \<lparr>returned = Return (Some (Errorf_w
             ''failed to commit record changes via e.Next() after immutability checks: '' err)),
           calls = cs @ [NextCall], world = w1\<rparr>
      | (None, w1) \<Rightarrow>
          (case userCallback of
             None \<Rightarrow> \<lparr>returned = Return None, calls = cs @ [NextCall], world = w1\<rparr>
           | Some cb \<Rightarrow>
               (case cb e w1 of
                  (Some callbackErr, w2) \<Rightarrow>
                    \<lparr>returned = Return (Some (Errorf_w
                       ''user callback failed AFTER record commit: '' callbackErr)),
                     calls = cs @ [NextCall, UserCallbackCall], world = w2\<rparr>
                | (None, w2) \<Rightarrow>
                    \<lparr>returned = Return None,
                     calls = cs @ [NextCall, UserCallbackCall], world = w2\<rparr>)))"

text \<open>
  Lines 52 to 123: the function \<^verbatim>\<open>MakeImmutable\<close> returns, closed over the three
  variables of the parse. \<^verbatim>\<open>e.Record.Collection().Id\<close> on a record without a
  collection is a nil pointer dereference, before the lookup is called.
\<close>

definition hook ::
  "string list \<Rightarrow> 'w callback option \<Rightarrow> error option
     \<Rightarrow> 'w RecordEvent \<Rightarrow> 'w \<Rightarrow> 'w HookResult"
where
  "hook immutableFieldNames userCallback parseError e w =
     (case parseError of
        Some perr \<Rightarrow>
          \<lparr>returned = Return (Some (NewBadRequestError
             (''MakeImmutable setup error: '' @ errorMessage perr) NoData)),
           calls = [], world = w\<rparr>
      | None \<Rightarrow>
     (case Record e of
        None \<Rightarrow>
          \<lparr>returned = Return (Some (NewBadRequestError
             ''Record data is missing in the event.'' NoData)),
           calls = [], world = w\<rparr>
      | Some r \<Rightarrow>
     (case App e of
        None \<Rightarrow>
          \<lparr>returned = Return (Some (NewBadRequestError
             ''App context is missing in the event.'' NoData)),
           calls = [], world = w\<rparr>
      | Some app \<Rightarrow>
     (case RecordCollection r of
        None \<Rightarrow> \<lparr>returned = Panic, calls = [], world = w\<rparr>
      | Some c \<Rightarrow>
     (case app (CollectionId c) (RecordId r) w of
        Inl err \<Rightarrow>
          \<lparr>returned = Return (Some (NewBadRequestError
             (''Failed to fetch original record '' @ RecordId r @ '' from collection ''
                @ CollectionName c @ '' for immutability check.'') (ErrData err))),
           calls = [FindRecordByIdCall (CollectionId c) (RecordId r)], world = w\<rparr>
      | Inr originalRecord \<Rightarrow>
     (case checkFields (fieldsToCheck immutableFieldNames r) originalRecord r of
        Some verr \<Rightarrow>
          \<lparr>returned = Return (Some verr),
           calls = [FindRecordByIdCall (CollectionId c) (RecordId r)], world = w\<rparr>
      | None \<Rightarrow>
          commitAndCallback userCallback e w
            [FindRecordByIdCall (CollectionId c) (RecordId r)]))))))"

text \<open>Lines 27 to 124: \<^verbatim>\<open>MakeImmutable(args ...interface{})\<close>.\<close>

definition MakeImmutable :: "'w arg list \<Rightarrow> 'w RecordEvent \<Rightarrow> 'w \<Rightarrow> 'w HookResult" where
  "MakeImmutable args =
     (case parseArgs 0 args [] None of
        (immutableFieldNames, userCallback, parseError) \<Rightarrow>
          hook immutableFieldNames userCallback parseError)"

text \<open>
  Lines 149 to 199: the second \<^verbatim>\<open>MakeImmutable\<close> of the source, which takes the field
  names only (\<^verbatim>\<open>immutableFieldNames ...string\<close>). Its lines 163 to 196 are, statement
  for statement, lines 69 to 99 of the first.
\<close>

definition MakeImmutable_strings ::
  "string list \<Rightarrow> 'w RecordEvent \<Rightarrow> 'w \<Rightarrow> 'w HookResult"
where
  "MakeImmutable_strings immutableFieldNames e w =
     (case Record e of
        None \<Rightarrow>
          \<lparr>returned = Return (Some (NewBadRequestError
             ''Record data is missing in the event.'' NoData)),
           calls = [], world = w\<rparr>
      | Some r \<Rightarrow>
     (case App e of
        None \<Rightarrow>
          \<lparr>returned = Return (Some (NewBadRequestError
             ''App context is missing in the event.'' NoData)),
           calls = [], world = w\<rparr>
      | Some app \<Rightarrow>
     (case RecordCollection r of
        None \<Rightarrow> \<lparr>returned = Panic, calls = [], world = w\<rparr>
      | Some c \<Rightarrow>
     (case app (CollectionId c) (RecordId r) w of
        Inl err \<Rightarrow>
          \<lparr>returned = Return (Some (NewBadRequestError
             (''Failed to fetch original record '' @ RecordId r @ '' from collection ''
                @ CollectionName c @ ''.'') (ErrData err))),
           calls = [FindRecordByIdCall (CollectionId c) (RecordId r)], world = w\<rparr>
      | Inr originalRecord \<Rightarrow>
     (case checkFields (fieldsToCheck immutableFieldNames r) originalRecord r of
        Some verr \<Rightarrow>
          \<lparr>returned = Return (Some verr),
           calls = [FindRecordByIdCall (CollectionId c) (RecordId r)], world = w\<rparr>
      | None \<Rightarrow>
          \<lparr>returned = Return None,
           calls = [FindRecordByIdCall (CollectionId c) (RecordId r)], world = w\<rparr>)))))"

section \<open>Example events\<close>

text \<open>
  The collection of the repository's tests, with the fields \<open>name\<close>, \<open>value\<close>,
  \<open>status\<close> and \<open>description\<close>; a record \<open>r1\<close> of it with given attribute values
  (an attribute without a value is nil); an app that finds the stored record \<open>r1\<close> and
  no other; and an update event for \<open>r1\<close>. The state of the host counts the steps
  taken: a commit adds one, a callback adds ten.
\<close>

definition testCollection :: Collection where
  "testCollection = \<lparr>CollectionId = ''c1'', CollectionName = ''test_items''\<rparr>"

definition testRecord :: "(string \<times> gval) list \<Rightarrow> Record" where
  "testRecord kvs =
     \<lparr>RecordId = ''r1'', RecordCollection = Some testCollection,
      Schema = [''name'', ''value'', ''status'', ''description''],
      Get = (\<lambda>k. case map_of kvs k of None \<Rightarrow> VNil | Some v \<Rightarrow> v)\<rparr>"

definition testApp :: "(string \<times> gval) list \<Rightarrow> nat App" where
  "testApp stored =
     (\<lambda>collectionId recordId w.
        if collectionId = ''c1'' \<and> recordId = ''r1'' then Inr (testRecord stored)
        else Inl (ErrorString ''sql: no rows in result set''))"

definition testEvent ::
  "(string \<times> gval) list \<Rightarrow> (string \<times> gval) list \<Rightarrow> error option \<Rightarrow> nat RecordEvent"
where
  "testEvent stored proposed commitResult =
     \<lparr>Record = Some (testRecord proposed), App = Some (testApp stored),
      Next = (\<lambda>w. (commitResult, Suc w))\<rparr>"

definition okCallback :: "nat callback" where
  "okCallback = (\<lambda>e w. (None, w + 10))"

definition failingCallback :: "nat callback" where
  "failingCallback = (\<lambda>e w. (Some (ErrorString ''callback_forced_error''), w + 10))"

text \<open>An update event for \<open>r1\<close> whose app finds no record.\<close>

definition failedEvent :: "nat RecordEvent" where
  "failedEvent =
     \<lparr>Record = Some (testRecord [(''name'', VStr ''x'')]),
      App = Some (\<lambda>collectionId recordId w. Inl (ErrorString ''sql: no rows in result set'')),
      Next = (\<lambda>w. (None, Suc w))\<rparr>"

section \<open>Deep equality\<close>























section \<open>The comparison loop and the stages of the hook\<close>

lemma isSystemField_iff:
  "isSystemField n =
     (n \<in> {''id'', ''created'', ''updated'', ''collectionId'', ''collectionName'', ''expand''})"
  unfolding isSystemField_def SystemFieldId_def SystemFieldCreated_def
      SystemFieldUpdated_def SystemFieldCollectionId_def SystemFieldCollectionName_def
      SystemFieldExpand_def
  by simp

lemma isSystemField_Updated: "isSystemField SystemFieldUpdated"
  unfolding isSystemField_def by simp

lemma checkFields_find:
  "checkFields names originalRecord r =
     map_option (\<lambda>n. immutableFieldError n r)
       (find (\<lambda>n. n \<noteq> SystemFieldUpdated
                \<and> \<not> DeepEqual (Get originalRecord n) (Get r n)) names)"
  by (induction names) (auto simp: isSystemField_Updated)

lemma checkFields_append:
  "checkFields (xs @ ys) originalRecord r =
     (case checkFields xs originalRecord r of
        Some err \<Rightarrow> Some err
      | None \<Rightarrow> checkFields ys originalRecord r)"
  by (induction xs) (auto simp: isSystemField_Updated)

lemma checkFields_None_iff:
  "checkFields names originalRecord r = None \<longleftrightarrow>
     (\<forall>n \<in> set names. n = SystemFieldUpdated \<or> DeepEqual (Get originalRecord n) (Get r n))"
  by (induction names) (auto simp: isSystemField_Updated)

lemma immutableFieldError_inject:
  "immutableFieldError n r = immutableFieldError n' r' \<longleftrightarrow> n = n' \<and> RecordId r = RecordId r'"
  unfolding immutableFieldError_def NewBadRequestError_def by auto

lemma hook_checked:
  assumes "Record e = Some r" and "App e = Some app" and "RecordCollection r = Some c"
    and "app (CollectionId c) (RecordId r) w = Inr originalRecord"
  shows "hook names cb None e w =
     (case checkFields (fieldsToCheck names r) originalRecord r of
        Some verr \<Rightarrow>
          \<lparr>returned = Return (Some verr),
           calls = [FindRecordByIdCall (CollectionId c) (RecordId r)], world = w\<rparr>
      | None \<Rightarrow>
          commitAndCallback cb e w [FindRecordByIdCall (CollectionId c) (RecordId r)])"
  unfolding hook_def using assms by simp

lemma commitAndCallback_returned:
  "returned (commitAndCallback cb e w cs) = Return None
   \<or> (\<exists>m err. returned (commitAndCallback cb e w cs) = Return (Some (WrapError m err)))"
  unfolding commitAndCallback_def Errorf_w_def
  by (auto split: prod.splits option.splits)

lemma commitAndCallback_calls:
  "NextCall \<in> set (calls (commitAndCallback cb e w cs))"
  unfolding commitAndCallback_def
  by (auto split: prod.splits option.splits)

lemma testEvent_simps:
  "Record (testEvent stored proposed commitResult) = Some (testRecord proposed)"
  "App (testEvent stored proposed commitResult) = Some (testApp stored)"
  "Next (testEvent stored proposed commitResult) w = (commitResult, Suc w)"
  by (simp_all add: testEvent_def)

lemma testRecord_simps:
  "RecordId (testRecord kvs) = ''r1''"
  "RecordCollection (testRecord kvs) = Some testCollection"
  "Schema (testRecord kvs) = [''name'', ''value'', ''status'', ''description'']"
  "Get (testRecord kvs) k = (case map_of kvs k of None \<Rightarrow> VNil | Some v \<Rightarrow> v)"
  by (simp_all add: testRecord_def)

lemma testApp_found:
  "testApp stored (CollectionId testCollection) (RecordId (testRecord proposed)) w
     = Inr (testRecord stored)"
  by (simp add: testApp_def testCollection_def testRecord_def)

section \<open>Protected fields\<close>

text \<open>
  C1. With a non-empty list of protected names, on a run that reaches the comparison loop
  (no parse error, the record, the app and the collection are there, the original record
  is found): the hook returns the immutable-field error exactly when some protected name
  other than \<open>updated\<close> has an original value that is not deeply equal to the pending
  one; the error is the one of the first such name in the order given, it holds that name,
  the reason \<open>immutable\<close> and the record's identifier, and the only call made is the
  lookup; when no protected name differs, the run goes on to \<^verbatim>\<open>e.Next()\<close>, whatever
  the values of the other attributes.
\<close>

theorem protected_fields_violation_iff:
  assumes "parseArgs 0 args [] None = (names, cb, None)"
    and "names \<noteq> []"
    and "Record e = Some r" and "App e = Some app" and "RecordCollection r = Some c"
    and "app (CollectionId c) (RecordId r) w = Inr originalRecord"
  shows
    "((\<exists>n. returned (MakeImmutable args e w) = Return (Some (immutableFieldError n r)))
        \<longleftrightarrow> (\<exists>n \<in> set names. n \<noteq> SystemFieldUpdated
               \<and> \<not> DeepEqual (Get originalRecord n) (Get r n)))
     \<and> (\<forall>n. find (\<lambda>n. n \<noteq> SystemFieldUpdated
                      \<and> \<not> DeepEqual (Get originalRecord n) (Get r n)) names = Some n
            \<longrightarrow> MakeImmutable args e w =
                  \<lparr>returned = Return (Some (ApiError 400
                     (''Attempt to modify immutable field '' @ [CHR 0x27] @ n @ [CHR 0x27] @ ''.'')
                     (MapData [(''field'', n), (''reason'', ''immutable''),
                               (''recordId'', RecordId r)]))),
                   calls = [FindRecordByIdCall (CollectionId c) (RecordId r)], world = w\<rparr>)
     \<and> ((\<forall>n \<in> set names. n = SystemFieldUpdated
               \<or> DeepEqual (Get originalRecord n) (Get r n))
            \<longrightarrow> MakeImmutable args e w =
                  commitAndCallback cb e w [FindRecordByIdCall (CollectionId c) (RecordId r)]
                \<and> NextCall \<in> set (calls (MakeImmutable args e w)))"
proof -
  let ?differs = "\<lambda>n. n \<noteq> SystemFieldUpdated \<and> \<not> DeepEqual (Get originalRecord n) (Get r n)"
  let ?cs = "[FindRecordByIdCall (CollectionId c) (RecordId r)]"
  have ftc: "fieldsToCheck names r = names"
    using assms(2) by (simp add: fieldsToCheck_def)
  have run: "MakeImmutable args e w =
     (case checkFields names originalRecord r of
        Some verr \<Rightarrow> \<lparr>returned = Return (Some verr), calls = ?cs, world = w\<rparr>
      | None \<Rightarrow> commitAndCallback cb e w ?cs)"
    using hook_checked [OF assms(3-6), of names cb] assms(1)
    by (simp add: MakeImmutable_def ftc)
  have found: "MakeImmutable args e w =
      \<lparr>returned = Return (Some (immutableFieldError n r)), calls = ?cs, world = w\<rparr>"
    if "find ?differs names = Some n" for n
    using that by (simp add: run checkFields_find)
  have passed: "MakeImmutable args e w = commitAndCallback cb e w ?cs"
    if "\<forall>n \<in> set names. n = SystemFieldUpdated \<or> DeepEqual (Get originalRecord n) (Get r n)"
    using that by (simp add: run checkFields_None_iff [THEN iffD2])
  have iff: "(\<exists>n. returned (MakeImmutable args e w) = Return (Some (immutableFieldError n r)))
        \<longleftrightarrow> (\<exists>n \<in> set names. ?differs n)"
  proof (cases "find ?differs names")
    case None
    then have all: "\<forall>n \<in> set names. n = SystemFieldUpdated
        \<or> DeepEqual (Get originalRecord n) (Get r n)"
      by (auto simp: find_None_iff)
    have "returned (MakeImmutable args e w) \<noteq> Return (Some (immutableFieldError n r))" for n
      using commitAndCallback_returned [of cb e w ?cs] passed [OF all]
      by (auto simp: immutableFieldError_def NewBadRequestError_def)
    with all show ?thesis by blast
  next
    case (Some n)
    then have "n \<in> set names \<and> ?differs n"
      by (auto simp: find_Some_iff)
    with found [OF Some] show ?thesis by auto
  qed
  show ?thesis
  proof (intro conjI allI impI)
    show "(\<exists>n. returned (MakeImmutable args e w) = Return (Some (immutableFieldError n r)))
        \<longleftrightarrow> (\<exists>n \<in> set names. ?differs n)"
      by (rule iff)
  next
    fix n assume "find ?differs names = Some n"
    from found [OF this]
    show "MakeImmutable args e w =
        \<lparr>returned = Return (Some (ApiError 400
           (''Attempt to modify immutable field '' @ [CHR 0x27] @ n @ [CHR 0x27] @ ''.'')
           (MapData [(''field'', n), (''reason'', ''immutable''), (''recordId'', RecordId r)]))),
         calls = ?cs, world = w\<rparr>"
      by (simp add: immutableFieldError_def NewBadRequestError_def)
  next
    assume all: "\<forall>n \<in> set names. n = SystemFieldUpdated
        \<or> DeepEqual (Get originalRecord n) (Get r n)"
    show "MakeImmutable args e w = commitAndCallback cb e w ?cs"
      by (rule passed [OF all])
    show "NextCall \<in> set (calls (MakeImmutable args e w))"
      by (simp add: passed [OF all] commitAndCallback_calls)
  qed
qed

theorem protected_fields_violation_iff_witness:
  "MakeImmutable [AString ''name'']
     (testEvent [(''name'', VStr ''x''), (''status'', VStr ''active'')]
                [(''name'', VStr ''y''), (''status'', VStr ''active'')] None) 0
     = \<lparr>returned = Return (Some (ApiError 400
          (''Attempt to modify immutable field '' @ [CHR 0x27] @ ''name'' @ [CHR 0x27] @ ''.'')
          (MapData [(''field'', ''name''), (''reason'', ''immutable''), (''recordId'', ''r1'')]))),
        calls = [FindRecordByIdCall ''c1'' ''r1''], world = 0\<rparr>
   \<and> MakeImmutable [AString ''name'']
     (testEvent [(''name'', VStr ''x''), (''status'', VStr ''active'')]
                [(''name'', VStr ''x''), (''status'', VStr ''inactive'')] None) 0
     = \<lparr>returned = Return None,
        calls = [FindRecordByIdCall ''c1'' ''r1'', NextCall], world = 1\<rparr>"
proof -
  let ?S = "[(''name'', VStr ''x''), (''status'', VStr ''active'')]"
  let ?B = "[(''name'', VStr ''y''), (''status'', VStr ''active'')]"
  let ?A = "[(''name'', VStr ''x''), (''status'', VStr ''inactive'')]"
  have p: "parseArgs 0 [AString ''name''] [] None = ([''name''], None :: nat callback option, None)"
    by simp
  have ne: "[''name''] \<noteq> ([] :: string list)" by simp
  note tB = protected_fields_violation_iff [where args = "[AString ''name'']"
      and names = "[''name'']" and cb = None and e = "testEvent ?S ?B None"
      and r = "testRecord ?B" and app = "testApp ?S" and c = testCollection and w = 0
      and originalRecord = "testRecord ?S", OF p ne testEvent_simps(1) testEvent_simps(2)
      testRecord_simps(2) testApp_found]
  note tA = protected_fields_violation_iff [where args = "[AString ''name'']"
      and names = "[''name'']" and cb = None and e = "testEvent ?S ?A None"
      and r = "testRecord ?A" and app = "testApp ?S" and c = testCollection and w = 0
      and originalRecord = "testRecord ?S", OF p ne testEvent_simps(1) testEvent_simps(2)
      testRecord_simps(2) testApp_found]
  have fB: "find (\<lambda>n. n \<noteq> SystemFieldUpdated
        \<and> \<not> DeepEqual (Get (testRecord ?S) n) (Get (testRecord ?B) n)) [''name''] = Some ''name''"
    by (simp add: testRecord_simps SystemFieldUpdated_def)
  have eqA: "\<forall>n \<in> set [''name'']. n = SystemFieldUpdated
        \<or> DeepEqual (Get (testRecord ?S) n) (Get (testRecord ?A) n)"
    by (simp add: testRecord_simps)
  from tB [THEN conjunct2, THEN conjunct1, THEN spec, THEN mp, OF fB] have B: "MakeImmutable [AString ''name''] (testEvent ?S ?B None) 0
     = \<lparr>returned = Return (Some (ApiError 400
          (''Attempt to modify immutable field '' @ [CHR 0x27] @ ''name'' @ [CHR 0x27] @ ''.'')
          (MapData [(''field'', ''name''), (''reason'', ''immutable''), (''recordId'', ''r1'')]))),
        calls = [FindRecordByIdCall ''c1'' ''r1''], world = 0\<rparr>"
    by (simp add: testRecord_simps testCollection_def)
  from tA [THEN conjunct2, THEN conjunct2, THEN mp, OF eqA, THEN conjunct1]
  have "MakeImmutable [AString ''name''] (testEvent ?S ?A None) 0
     = commitAndCallback None (testEvent ?S ?A None) 0
         [FindRecordByIdCall (CollectionId testCollection) (RecordId (testRecord ?A))]" .
  then have A: "MakeImmutable [AString ''name''] (testEvent ?S ?A None) 0
     = \<lparr>returned = Return None,
        calls = [FindRecordByIdCall ''c1'' ''r1'', NextCall], world = 1\<rparr>"
    by (simp add: commitAndCallback_def testEvent_simps testRecord_simps testCollection_def)
  from A B show ?thesis by blast
qed

section \<open>All user fields\<close>


lemma fieldsToCheck_Nil:
  "fieldsToCheck [] r = filter (\<lambda>n. \<not> isSystemField n) (Schema r)"
  by (simp add: fieldsToCheck_def)




section \<open>System fields in the comparison\<close>

lemma checkFields_Some_name:
  "checkFields names originalRecord r = Some err \<Longrightarrow>
     \<exists>n \<in> set names. n \<noteq> SystemFieldUpdated \<and> err = immutableFieldError n r"
  by (auto simp: checkFields_find find_Some_iff)

lemma immutableFieldError_not_Wrap [simp]:
  "immutableFieldError n r \<noteq> WrapError m err"
  "immutableFieldError n r \<noteq> NewBadRequestError m' NoData"
  "immutableFieldError n r \<noteq> NewBadRequestError m' (ErrData err)"
  "WrapError m err \<noteq> immutableFieldError n r"
  "NewBadRequestError m' NoData \<noteq> immutableFieldError n r"
  "NewBadRequestError m' (ErrData err) \<noteq> immutableFieldError n r"
  by (simp_all add: immutableFieldError_def NewBadRequestError_def)

lemma hook_returned_violation:
  assumes "returned (hook names cb perr e w) = Return (Some (immutableFieldError n r'))"
  shows "\<exists>r originalRecord. Record e = Some r \<and> perr = None
           \<and> checkFields (fieldsToCheck names r) originalRecord r
                = Some (immutableFieldError n r')"
proof (cases perr)
  case (Some pe)
  with assms show ?thesis by (simp add: hook_def)
next
  case None
  note perr = this
  show ?thesis
  proof (cases "Record e")
    case None
    with assms perr show ?thesis by (simp add: hook_def)
  next
    case (Some r)
    note r = this
    show ?thesis
    proof (cases "App e")
      case None
      with assms perr r show ?thesis by (simp add: hook_def)
    next
      case (Some app)
      note app = this
      show ?thesis
      proof (cases "RecordCollection r")
        case None
        with assms perr r app show ?thesis by (simp add: hook_def)
      next
        case (Some c)
        note c = this
        show ?thesis
        proof (cases "app (CollectionId c) (RecordId r) w")
          case (Inl err)
          with assms perr r app c show ?thesis by (simp add: hook_def)
        next
          case (Inr originalRecord)
          note h = hook_checked [OF r app c Inr, of names cb]
          show ?thesis
          proof (cases "checkFields (fieldsToCheck names r) originalRecord r")
            case None
            with assms perr h commitAndCallback_returned [of cb e w
                "[FindRecordByIdCall (CollectionId c) (RecordId r)]"]
            show ?thesis by auto
          next
            case (Some verr)
            with assms perr h r show ?thesis by auto
          qed
        qed
      qed
    qed
  qed
qed

text \<open>
  C5. A mismatch on \<open>updated\<close> is tolerated: the loop goes on with the next field,
  it never returns the immutable-field error of \<open>updated\<close>, and neither does any hook
  that \<^verbatim>\<open>MakeImmutable\<close> builds, on any event.
\<close>

theorem updated_never_violation:
  "checkFields (SystemFieldUpdated # rest) originalRecord r = checkFields rest originalRecord r
   \<and> checkFields names originalRecord r \<noteq> Some (immutableFieldError SystemFieldUpdated r')
   \<and> returned (MakeImmutable args e w)
        \<noteq> Return (Some (immutableFieldError SystemFieldUpdated r'))"
proof (intro conjI)
  show "checkFields (SystemFieldUpdated # rest) originalRecord r
          = checkFields rest originalRecord r"
    by (simp add: isSystemField_Updated)
  show never: "checkFields names originalRecord r
          \<noteq> Some (immutableFieldError SystemFieldUpdated r')" for names originalRecord r
    using checkFields_Some_name [of names originalRecord r]
    by (auto simp: immutableFieldError_inject)
  show "returned (MakeImmutable args e w)
          \<noteq> Return (Some (immutableFieldError SystemFieldUpdated r'))"
  proof
    assume a: "returned (MakeImmutable args e w)
          = Return (Some (immutableFieldError SystemFieldUpdated r'))"
    obtain names cb perr where p: "parseArgs 0 args [] None = (names, cb, perr)"
      by (cases "parseArgs 0 args [] None") auto
    from a p have "returned (hook names cb perr e w)
          = Return (Some (immutableFieldError SystemFieldUpdated r'))"
      by (simp add: MakeImmutable_def)
    from hook_returned_violation [OF this] never show False by blast
  qed
qed

theorem updated_never_violation_witness:
  "\<not> DeepEqual (Get (testRecord [(''updated'', VStr ''2024-01-01''), (''name'', VStr ''x'')])
                   ''updated'')
                (Get (testRecord [(''updated'', VStr ''2025-06-30''), (''name'', VStr ''x'')])
                   ''updated'')
   \<and> checkFields [''updated'', ''name'']
         (testRecord [(''updated'', VStr ''2024-01-01''), (''name'', VStr ''x'')])
         (testRecord [(''updated'', VStr ''2025-06-30''), (''name'', VStr ''x'')]) = None"
proof -
  let ?S = "[(''updated'', VStr ''2024-01-01''), (''name'', VStr ''x'')]"
  let ?P = "[(''updated'', VStr ''2025-06-30''), (''name'', VStr ''x'')]"
  note t = updated_never_violation [where rest = "[''name'']"
      and originalRecord = "testRecord ?S" and r = "testRecord ?P", THEN conjunct1]
  have d: "\<not> DeepEqual (Get (testRecord ?S) ''updated'') (Get (testRecord ?P) ''updated'')"
    by (simp add: testRecord_simps)
  have "checkFields [''name''] (testRecord ?S) (testRecord ?P) = None"
    by (simp add: testRecord_simps)
  with t have "checkFields [''updated'', ''name''] (testRecord ?S) (testRecord ?P) = None"
    unfolding SystemFieldUpdated_def by simp
  with d show ?thesis by blast
qed

text \<open>
  The system field \<open>created\<close>, named in the arguments, is checked like any other
  field: a change of it alone is rejected.
\<close>

theorem explicit_system_field_counterexample:
  "isSystemField ''created''
   \<and> MakeImmutable [AString ''created'']
       (testEvent [(''created'', VStr ''2024-01-01''), (''name'', VStr ''x'')]
                  [(''created'', VStr ''2025-06-30''), (''name'', VStr ''x'')] None) 0
     = \<lparr>returned = Return (Some (ApiError 400
          (''Attempt to modify immutable field '' @ [CHR 0x27] @ ''created'' @ [CHR 0x27] @ ''.'')
          (MapData [(''field'', ''created''), (''reason'', ''immutable''),
                    (''recordId'', ''r1'')]))),
        calls = [FindRecordByIdCall ''c1'' ''r1''], world = 0\<rparr>"
proof -
  let ?S = "[(''created'', VStr ''2024-01-01''), (''name'', VStr ''x'')]"
  let ?P = "[(''created'', VStr ''2025-06-30''), (''name'', VStr ''x'')]"
  have s: "isSystemField ''created''"
    by (simp add: isSystemField_iff)
  have c: "checkFields (fieldsToCheck [''created''] (testRecord ?P)) (testRecord ?S) (testRecord ?P)
      = Some (immutableFieldError ''created'' (testRecord ?P))"
    by (simp add: fieldsToCheck_def testRecord_simps SystemFieldUpdated_def)
  have "MakeImmutable [AString ''created''] (testEvent ?S ?P None) 0
      = hook [''created''] None None (testEvent ?S ?P None) 0"
    by (simp add: MakeImmutable_def)
  also have "\<dots> = \<lparr>returned = Return (Some (immutableFieldError ''created'' (testRecord ?P))),
        calls = [FindRecordByIdCall (CollectionId testCollection) (RecordId (testRecord ?P))],
        world = 0\<rparr>"
    using hook_checked [OF testEvent_simps(1) testEvent_simps(2) testRecord_simps(2)
        testApp_found, of "[''created'']" None ?S ?P None 0]
    by (simp add: c)
  finally show ?thesis
    using s by (simp add: immutableFieldError_def NewBadRequestError_def testRecord_simps
        testCollection_def)
qed

text \<open>
  C6, as the code has it. On a run that reaches the comparison loop, with an original and
  a pending record that differ in system fields only: with an empty list of protected
  names the hook goes on to \<^verbatim>\<open>e.Next()\<close>; so it does when \<open>updated\<close> is the only
  system field among the protected names; and when a protected name is a system field
  other than \<open>updated\<close> whose values differ, the hook returns the immutable-field
  error of a system field.
\<close>

theorem system_fields_exempt:
  assumes "parseArgs 0 args [] None = (names, cb, None)"
    and "Record e = Some r" and "App e = Some app" and "RecordCollection r = Some c"
    and "app (CollectionId c) (RecordId r) w = Inr originalRecord"
    and "\<forall>n. \<not> isSystemField n \<longrightarrow> DeepEqual (Get originalRecord n) (Get r n)"
  shows
    "(names = [] \<longrightarrow>
        MakeImmutable args e w =
          commitAndCallback cb e w [FindRecordByIdCall (CollectionId c) (RecordId r)])
     \<and> ((\<forall>n \<in> set names. isSystemField n \<longrightarrow> n = SystemFieldUpdated) \<longrightarrow>
        MakeImmutable args e w =
          commitAndCallback cb e w [FindRecordByIdCall (CollectionId c) (RecordId r)])
     \<and> ((\<exists>n \<in> set names. isSystemField n \<and> n \<noteq> SystemFieldUpdated
              \<and> \<not> DeepEqual (Get originalRecord n) (Get r n)) \<longrightarrow>
        (\<exists>n. isSystemField n \<and> MakeImmutable args e w =
           \<lparr>returned = Return (Some (immutableFieldError n r)),
            calls = [FindRecordByIdCall (CollectionId c) (RecordId r)], world = w\<rparr>))"
proof -
  let ?cs = "[FindRecordByIdCall (CollectionId c) (RecordId r)]"
  let ?differs = "\<lambda>n. n \<noteq> SystemFieldUpdated \<and> \<not> DeepEqual (Get originalRecord n) (Get r n)"
  have run: "MakeImmutable args e w =
     (case checkFields (fieldsToCheck names r) originalRecord r of
        Some verr \<Rightarrow> \<lparr>returned = Return (Some verr), calls = ?cs, world = w\<rparr>
      | None \<Rightarrow> commitAndCallback cb e w ?cs)"
    using hook_checked [OF assms(2-5), of names cb] assms(1)
    by (simp add: MakeImmutable_def)
  have a: "MakeImmutable args e w = commitAndCallback cb e w ?cs" if "names = []"
  proof -
    have "checkFields (fieldsToCheck names r) originalRecord r = None"
      using that assms(6) by (simp add: checkFields_None_iff fieldsToCheck_Nil)
    then show ?thesis by (simp add: run)
  qed
  have b: "MakeImmutable args e w = commitAndCallback cb e w ?cs"
    if "\<forall>n \<in> set names. isSystemField n \<longrightarrow> n = SystemFieldUpdated"
  proof (cases "names = []")
    case True
    then show ?thesis by (rule a)
  next
    case False
    then have "fieldsToCheck names r = names" by (simp add: fieldsToCheck_def)
    moreover have "checkFields names originalRecord r = None"
      using that assms(6) by (auto simp: checkFields_None_iff)
    ultimately show ?thesis by (simp add: run)
  qed
  have c: "\<exists>n. isSystemField n \<and> MakeImmutable args e w =
           \<lparr>returned = Return (Some (immutableFieldError n r)), calls = ?cs, world = w\<rparr>"
    if "\<exists>n \<in> set names. isSystemField n \<and> n \<noteq> SystemFieldUpdated
              \<and> \<not> DeepEqual (Get originalRecord n) (Get r n)"
  proof -
    from that have ne: "names \<noteq> []" by auto
    then have f: "fieldsToCheck names r = names" by (simp add: fieldsToCheck_def)
    from that have "find ?differs names \<noteq> None"
      by (auto simp: find_None_iff)
    then obtain n where n: "find ?differs names = Some n" by blast
    then have "?differs n" by (auto simp: find_Some_iff)
    with assms(6) have "isSystemField n" by blast
    moreover have "MakeImmutable args e w =
           \<lparr>returned = Return (Some (immutableFieldError n r)), calls = ?cs, world = w\<rparr>"
      using n by (simp add: run f checkFields_find)
    ultimately show ?thesis by blast
  qed
  from a b c show ?thesis by blast
qed

theorem system_fields_exempt_witness:
  "MakeImmutable []
     (testEvent [(''created'', VStr ''d1''), (''updated'', VStr ''d1''), (''name'', VStr ''x'')]
                [(''created'', VStr ''d2''), (''updated'', VStr ''d2''), (''name'', VStr ''x'')]
                None) 0
     = \<lparr>returned = Return None, calls = [FindRecordByIdCall ''c1'' ''r1'', NextCall],
        world = 1\<rparr>
   \<and> MakeImmutable [AString ''updated'', AString ''name'']
     (testEvent [(''created'', VStr ''d1''), (''updated'', VStr ''d1''), (''name'', VStr ''x'')]
                [(''created'', VStr ''d2''), (''updated'', VStr ''d2''), (''name'', VStr ''x'')]
                None) 0
     = \<lparr>returned = Return None, calls = [FindRecordByIdCall ''c1'' ''r1'', NextCall],
        world = 1\<rparr>
   \<and> (\<exists>n. isSystemField n \<and> MakeImmutable [AString ''name'', AString ''created'']
     (testEvent [(''created'', VStr ''d1''), (''updated'', VStr ''d1''), (''name'', VStr ''x'')]
                [(''created'', VStr ''d2''), (''updated'', VStr ''d2''), (''name'', VStr ''x'')]
                None) 0
     = \<lparr>returned = Return (Some (immutableFieldError n
          (testRecord [(''created'', VStr ''d2''), (''updated'', VStr ''d2''),
                       (''name'', VStr ''x'')]))),
        calls = [FindRecordByIdCall ''c1'' ''r1''], world = 0\<rparr>)"
proof -
  let ?S = "[(''created'', VStr ''d1''), (''updated'', VStr ''d1''), (''name'', VStr ''x'')]"
  let ?P = "[(''created'', VStr ''d2''), (''updated'', VStr ''d2''), (''name'', VStr ''x'')]"
  let ?e = "testEvent ?S ?P None"
  have conf: "\<forall>n. \<not> isSystemField n \<longrightarrow> DeepEqual (Get (testRecord ?S) n) (Get (testRecord ?P) n)"
    by (simp add: isSystemField_iff testRecord_simps)
  have cc: "commitAndCallback None ?e 0
        [FindRecordByIdCall (CollectionId testCollection) (RecordId (testRecord ?P))]
      = \<lparr>returned = Return None, calls = [FindRecordByIdCall ''c1'' ''r1'', NextCall],
         world = 1\<rparr>"
    by (simp add: commitAndCallback_def testEvent_simps testRecord_simps testCollection_def)
  have p1: "parseArgs 0 [] [] None = ([], None :: nat callback option, None)"
    by simp
  have p2: "parseArgs 0 [AString ''updated'', AString ''name''] [] None
      = ([''updated'', ''name''], None :: nat callback option, None)"
    by simp
  have p3: "parseArgs 0 [AString ''name'', AString ''created''] [] None
      = ([''name'', ''created''], None :: nat callback option, None)"
    by simp
  note t1 = system_fields_exempt [where args = "[]" and names = "[]" and cb = None
      and e = ?e and r = "testRecord ?P" and app = "testApp ?S"
      and c = testCollection and w = 0 and originalRecord = "testRecord ?S",
      OF p1 testEvent_simps(1) testEvent_simps(2) testRecord_simps(2) testApp_found conf,
      THEN conjunct1]
  note t2 = system_fields_exempt [where args = "[AString ''updated'', AString ''name'']"
      and names = "[''updated'', ''name'']" and cb = None
      and e = ?e and r = "testRecord ?P" and app = "testApp ?S"
      and c = testCollection and w = 0 and originalRecord = "testRecord ?S",
      OF p2 testEvent_simps(1) testEvent_simps(2) testRecord_simps(2) testApp_found conf,
      THEN conjunct2, THEN conjunct1]
  note t3 = system_fields_exempt [where args = "[AString ''name'', AString ''created'']"
      and names = "[''name'', ''created'']" and cb = None
      and e = ?e and r = "testRecord ?P" and app = "testApp ?S"
      and c = testCollection and w = 0 and originalRecord = "testRecord ?S",
      OF p3 testEvent_simps(1) testEvent_simps(2) testRecord_simps(2) testApp_found conf,
      THEN conjunct2, THEN conjunct2]
  have a: "MakeImmutable [] ?e 0
     = \<lparr>returned = Return None, calls = [FindRecordByIdCall ''c1'' ''r1'', NextCall],
        world = 1\<rparr>"
    using t1 cc by simp
  have h2: "\<forall>n \<in> set [''updated'', ''name'']. isSystemField n \<longrightarrow> n = SystemFieldUpdated"
    by (simp add: isSystemField_iff SystemFieldUpdated_def)
  have b: "MakeImmutable [AString ''updated'', AString ''name''] ?e 0
     = \<lparr>returned = Return None, calls = [FindRecordByIdCall ''c1'' ''r1'', NextCall],
        world = 1\<rparr>"
    using t2 [THEN mp, OF h2] cc by simp
  have h3: "\<exists>n \<in> set [''name'', ''created'']. isSystemField n \<and> n \<noteq> SystemFieldUpdated
      \<and> \<not> DeepEqual (Get (testRecord ?S) n) (Get (testRecord ?P) n)"
    by (simp add: isSystemField_iff SystemFieldUpdated_def testRecord_simps)
  have c: "\<exists>n. isSystemField n \<and> MakeImmutable [AString ''name'', AString ''created''] ?e 0
     = \<lparr>returned = Return (Some (immutableFieldError n (testRecord ?P))),
        calls = [FindRecordByIdCall ''c1'' ''r1''], world = 0\<rparr>"
    using t3 [THEN mp, OF h3] by (simp add: testRecord_simps testCollection_def)
  from a b c show ?thesis by blast
qed

section \<open>The order of the checks\<close>

lemma hook_parseError:
  "hook names cb (Some pe) e w =
     \<lparr>returned = Return (Some (NewBadRequestError
        (''MakeImmutable setup error: '' @ errorMessage pe) NoData)),
      calls = [], world = w\<rparr>"
  by (simp add: hook_def)

lemma hook_no_Record:
  "Record e = None \<Longrightarrow> hook names cb None e w =
     \<lparr>returned = Return (Some (NewBadRequestError
        ''Record data is missing in the event.'' NoData)),
      calls = [], world = w\<rparr>"
  by (simp add: hook_def)

lemma hook_no_App:
  "Record e = Some r \<Longrightarrow> App e = None \<Longrightarrow> hook names cb None e w =
     \<lparr>returned = Return (Some (NewBadRequestError
        ''App context is missing in the event.'' NoData)),
      calls = [], world = w\<rparr>"
  by (simp add: hook_def)

lemma hook_no_Collection:
  "Record e = Some r \<Longrightarrow> App e = Some app \<Longrightarrow> RecordCollection r = None \<Longrightarrow>
   hook names cb None e w = \<lparr>returned = Panic, calls = [], world = w\<rparr>"
  by (simp add: hook_def)

lemma hook_fetch_failed:
  "Record e = Some r \<Longrightarrow> App e = Some app \<Longrightarrow> RecordCollection r = Some c \<Longrightarrow>
   app (CollectionId c) (RecordId r) w = Inl err \<Longrightarrow>
   hook names cb None e w =
     \<lparr>returned = Return (Some (NewBadRequestError
        (''Failed to fetch original record '' @ RecordId r @ '' from collection ''
           @ CollectionName c @ '' for immutability check.'') (ErrData err))),
      calls = [FindRecordByIdCall (CollectionId c) (RecordId r)], world = w\<rparr>"
  by (simp add: hook_def)

text \<open>
  A hook built from two callbacks, run on the empty event of the repository's argument
  tests (no record, no app), returns the setup error, not the error of the missing record.
\<close>

theorem configuration_error_first_counterexample:
  "MakeImmutable [AFunc (Some okCallback), AFunc (Some okCallback)]
     \<lparr>Record = None, App = None, Next = (\<lambda>w. (None, Suc w))\<rparr> 0
     = \<lparr>returned = Return (Some (ApiError 400
          ''MakeImmutable setup error: pbimmutable.MakeImmutable: only one callback function can be provided''
          NoData)),
        calls = [], world = 0\<rparr>
   \<and> returned (MakeImmutable [AFunc (Some okCallback), AFunc (Some okCallback)]
        \<lparr>Record = None, App = None, Next = (\<lambda>w. (None, Suc w))\<rparr> 0)
     \<noteq> Return (Some (ApiError 400 ''Record data is missing in the event.'' NoData))"
  by (simp add: MakeImmutable_def hook_parseError NewBadRequestError_def)

text \<open>
  C7, as the code has it. The hook looks at the parse error first: when the arguments did
  not parse, every run returns the setup error, whatever the event, with no call made.
  Only when they parsed does it check the event: without a record it returns the error of
  the missing record, and with a record but no app the error of the missing app, with no
  call made. These two errors differ from the setup error and from the immutable-field
  error.
\<close>

theorem configuration_error_before_preconditions:
  assumes "parseArgs 0 args [] None = (names, cb, perr)"
  shows
    "(\<forall>pe. perr = Some pe \<longrightarrow>
        MakeImmutable args e w =
          \<lparr>returned = Return (Some (NewBadRequestError
             (''MakeImmutable setup error: '' @ errorMessage pe) NoData)),
           calls = [], world = w\<rparr>)
     \<and> (perr = None \<and> Record e = None \<longrightarrow>
        MakeImmutable args e w =
          \<lparr>returned = Return (Some (NewBadRequestError
             ''Record data is missing in the event.'' NoData)),
           calls = [], world = w\<rparr>)
     \<and> (perr = None \<and> Record e \<noteq> None \<and> App e = None \<longrightarrow>
        MakeImmutable args e w =
          \<lparr>returned = Return (Some (NewBadRequestError
             ''App context is missing in the event.'' NoData)),
           calls = [], world = w\<rparr>)
     \<and> NewBadRequestError ''Record data is missing in the event.'' NoData
          \<noteq> NewBadRequestError (''MakeImmutable setup error: '' @ m) NoData
     \<and> NewBadRequestError ''App context is missing in the event.'' NoData
          \<noteq> NewBadRequestError (''MakeImmutable setup error: '' @ m) NoData
     \<and> NewBadRequestError ''Record data is missing in the event.'' NoData
          \<noteq> immutableFieldError n r
     \<and> NewBadRequestError ''App context is missing in the event.'' NoData
          \<noteq> immutableFieldError n r"
proof -
  have run: "MakeImmutable args e w = hook names cb perr e w"
    using assms by (simp add: MakeImmutable_def)
  have a: "perr = Some pe \<Longrightarrow> MakeImmutable args e w =
          \<lparr>returned = Return (Some (NewBadRequestError
             (''MakeImmutable setup error: '' @ errorMessage pe) NoData)),
           calls = [], world = w\<rparr>" for pe
    by (simp add: run hook_parseError)
  have b: "perr = None \<and> Record e = None \<Longrightarrow> MakeImmutable args e w =
          \<lparr>returned = Return (Some (NewBadRequestError
             ''Record data is missing in the event.'' NoData)),
           calls = [], world = w\<rparr>"
    by (simp add: run hook_no_Record)
  have c: "perr = None \<and> Record e \<noteq> None \<and> App e = None \<Longrightarrow> MakeImmutable args e w =
          \<lparr>returned = Return (Some (NewBadRequestError
             ''App context is missing in the event.'' NoData)),
           calls = [], world = w\<rparr>"
    by (auto simp: run hook_no_App)
  have d: "NewBadRequestError ''Record data is missing in the event.'' NoData
          \<noteq> NewBadRequestError (''MakeImmutable setup error: '' @ m) NoData"
    "NewBadRequestError ''App context is missing in the event.'' NoData
          \<noteq> NewBadRequestError (''MakeImmutable setup error: '' @ m) NoData"
    by (simp_all add: NewBadRequestError_def)
  have f: "NewBadRequestError m' NoData \<noteq> immutableFieldError n r" for m'
    by simp
  from a b c d f show ?thesis by blast
qed

theorem configuration_error_before_preconditions_witness:
  "MakeImmutable [AOther ''int'', AString ''field1'']
     \<lparr>Record = None, App = None, Next = (\<lambda>w. (None, Suc w))\<rparr> 0
     = \<lparr>returned = Return (Some (ApiError 400
          ''MakeImmutable setup error: pbimmutable.MakeImmutable: invalid argument type int at position 0''
          NoData)),
        calls = [], world = 0\<rparr>
   \<and> MakeImmutable [AString ''field1'', AString ''field2'']
     \<lparr>Record = None, App = None, Next = (\<lambda>w. (None, Suc w))\<rparr> 0
     = \<lparr>returned = Return (Some (ApiError 400 ''Record data is missing in the event.'' NoData)),
        calls = [], world = 0\<rparr>
   \<and> MakeImmutable [AString ''field1'', AString ''field2'']
     \<lparr>Record = Some (testRecord []), App = None, Next = (\<lambda>w. (None, Suc w))\<rparr> 0
     = \<lparr>returned = Return (Some (ApiError 400 ''App context is missing in the event.'' NoData)),
        calls = [], world = 0\<rparr>"
proof -
  let ?dummy = "\<lparr>Record = None, App = None, Next = (\<lambda>w. (None, Suc w))\<rparr> :: nat RecordEvent"
  let ?noApp = "\<lparr>Record = Some (testRecord []), App = None, Next = (\<lambda>w. (None, Suc w))\<rparr>
      :: nat RecordEvent"
  let ?pe = "ErrorString ''pbimmutable.MakeImmutable: invalid argument type int at position 0''"
  have p1: "parseArgs 0 [AOther ''int'', AString ''field1''] [] None
      = ([], None :: nat callback option, Some ?pe)"
    by (simp add: showNat.simps [of 0] digit_def)
  have p2: "parseArgs 0 [AString ''field1'', AString ''field2''] [] None
      = ([''field1'', ''field2''], None :: nat callback option, None)"
    by simp
  from configuration_error_before_preconditions [OF p1, of ?dummy 0, THEN conjunct1]
  have a: "MakeImmutable [AOther ''int'', AString ''field1''] ?dummy 0
     = \<lparr>returned = Return (Some (ApiError 400
          ''MakeImmutable setup error: pbimmutable.MakeImmutable: invalid argument type int at position 0''
          NoData)),
        calls = [], world = 0\<rparr>"
    by (simp add: NewBadRequestError_def)
  from configuration_error_before_preconditions [OF p2, of ?dummy 0,
      THEN conjunct2, THEN conjunct1]
  have b: "MakeImmutable [AString ''field1'', AString ''field2''] ?dummy 0
     = \<lparr>returned = Return (Some (ApiError 400 ''Record data is missing in the event.'' NoData)),
        calls = [], world = 0\<rparr>"
    by (simp add: NewBadRequestError_def)
  from configuration_error_before_preconditions [OF p2, of ?noApp 0,
      THEN conjunct2, THEN conjunct2, THEN conjunct1]
  have c: "MakeImmutable [AString ''field1'', AString ''field2''] ?noApp 0
     = \<lparr>returned = Return (Some (ApiError 400 ''App context is missing in the event.'' NoData)),
        calls = [], world = 0\<rparr>"
    by (simp add: NewBadRequestError_def)
  from a b c show ?thesis by blast
qed

section \<open>Commit and callback\<close>

lemma hook_stages:
  "(NextCall \<notin> set (calls (hook names cb perr e w))
      \<and> UserCallbackCall \<notin> set (calls (hook names cb perr e w)))
   \<or> (\<exists>c r. hook names cb perr e w =
          commitAndCallback cb e w [FindRecordByIdCall c r])"
proof (cases perr)
  case (Some pe)
  then show ?thesis by (simp add: hook_parseError)
next
  case None
  note perr = this
  show ?thesis
  proof (cases "Record e")
    case None
    then show ?thesis by (simp add: perr hook_no_Record)
  next
    case (Some r)
    note r = this
    show ?thesis
    proof (cases "App e")
      case None
      then show ?thesis by (simp add: perr hook_no_App [OF r])
    next
      case (Some app)
      note app = this
      show ?thesis
      proof (cases "RecordCollection r")
        case None
        then show ?thesis by (simp add: perr hook_no_Collection [OF r app])
      next
        case (Some c)
        note c = this
        show ?thesis
        proof (cases "app (CollectionId c) (RecordId r) w")
          case (Inl err)
          then show ?thesis by (simp add: perr hook_fetch_failed [OF r app c])
        next
          case (Inr originalRecord)
          note h = hook_checked [OF r app c Inr, of names cb]
          show ?thesis
          proof (cases "checkFields (fieldsToCheck names r) originalRecord r")
            case None
            with h perr show ?thesis by auto
          next
            case (Some verr)
            with h perr show ?thesis by simp
          qed
        qed
      qed
    qed
  qed
qed

lemma commitAndCallback_callback_iff:
  assumes "NextCall \<notin> set cs" and "UserCallbackCall \<notin> set cs"
  shows "UserCallbackCall \<in> set (calls (commitAndCallback (Some cb) e w cs))
           \<longleftrightarrow> fst (Next e w) = None"
  using assms unfolding commitAndCallback_def
  by (auto split: prod.splits option.splits)

lemma commitAndCallback_commit_failed:
  "Next e w = (Some err, w1) \<Longrightarrow>
   commitAndCallback cb e w cs =
     \<lparr>returned = Return (Some (Errorf_w
        ''failed to commit record changes via e.Next() after immutability checks: '' err)),
      calls = cs @ [NextCall], world = w1\<rparr>"
  by (simp add: commitAndCallback_def)

lemma commitAndCallback_callback_failed:
  "Next e w = (None, w1) \<Longrightarrow> cb e w1 = (Some err, w2) \<Longrightarrow>
   commitAndCallback (Some cb) e w cs =
     \<lparr>returned = Return (Some (Errorf_w ''user callback failed AFTER record commit: '' err)),
      calls = cs @ [NextCall, UserCallbackCall], world = w2\<rparr>"
  by (simp add: commitAndCallback_def)

lemma commitAndCallback_callback_ok:
  "Next e w = (None, w1) \<Longrightarrow> cb e w1 = (None, w2) \<Longrightarrow>
   commitAndCallback (Some cb) e w cs =
     \<lparr>returned = Return None, calls = cs @ [NextCall, UserCallbackCall], world = w2\<rparr>"
  by (simp add: commitAndCallback_def)

text \<open>
  C3. For a hook that holds a callback, on every event: the callback is called exactly
  when \<^verbatim>\<open>e.Next()\<close> was called and returned nil. When \<^verbatim>\<open>e.Next()\<close> was called and
  returned an error, the hook returns that error wrapped as a failure to commit, the
  callback is not called and the state is the one \<^verbatim>\<open>e.Next()\<close> left. When it returned
  nil and the callback returns an error, the hook returns that error wrapped as a failure
  after the commit, and the state is the one the callback left, reached from the
  committed one. When both return nil the hook returns nil.
\<close>

theorem callback_iff_commit_succeeded:
  assumes "parseArgs 0 args [] None = (names, Some cb, perr)"
  shows
    "(UserCallbackCall \<in> set (calls (MakeImmutable args e w))
        \<longleftrightarrow> NextCall \<in> set (calls (MakeImmutable args e w)) \<and> fst (Next e w) = None)
     \<and> (\<forall>err w1. NextCall \<in> set (calls (MakeImmutable args e w))
            \<and> Next e w = (Some err, w1) \<longrightarrow>
          returned (MakeImmutable args e w) = Return (Some (WrapError
            (''failed to commit record changes via e.Next() after immutability checks: ''
               @ errorMessage err) err))
          \<and> UserCallbackCall \<notin> set (calls (MakeImmutable args e w))
          \<and> world (MakeImmutable args e w) = w1)
     \<and> (\<forall>w1 err w2. NextCall \<in> set (calls (MakeImmutable args e w))
            \<and> Next e w = (None, w1) \<and> cb e w1 = (Some err, w2) \<longrightarrow>
          returned (MakeImmutable args e w) = Return (Some (WrapError
            (''user callback failed AFTER record commit: '' @ errorMessage err) err))
          \<and> world (MakeImmutable args e w) = w2)
     \<and> (\<forall>w1 w2. NextCall \<in> set (calls (MakeImmutable args e w))
            \<and> Next e w = (None, w1) \<and> cb e w1 = (None, w2) \<longrightarrow>
          returned (MakeImmutable args e w) = Return None
          \<and> world (MakeImmutable args e w) = w2)"
proof -
  have run: "MakeImmutable args e w = hook names (Some cb) perr e w"
    using assms by (simp add: MakeImmutable_def)
  from hook_stages [of names "Some cb" perr e w]
  show ?thesis
  proof
    assume "NextCall \<notin> set (calls (hook names (Some cb) perr e w))
      \<and> UserCallbackCall \<notin> set (calls (hook names (Some cb) perr e w))"
    then show ?thesis by (simp add: run)
  next
    assume "\<exists>c r. hook names (Some cb) perr e w =
          commitAndCallback (Some cb) e w [FindRecordByIdCall c r]"
    then obtain c r where h: "MakeImmutable args e w =
          commitAndCallback (Some cb) e w [FindRecordByIdCall c r]"
      unfolding run by blast
    let ?cs = "[FindRecordByIdCall c r]"
    have i: "UserCallbackCall \<in> set (calls (commitAndCallback (Some cb) e w ?cs))
        \<longleftrightarrow> fst (Next e w) = None"
      by (rule commitAndCallback_callback_iff) simp_all
    have n: "NextCall \<in> set (calls (commitAndCallback (Some cb) e w ?cs))"
      by (rule commitAndCallback_calls)
    show ?thesis
      unfolding h
    proof (intro conjI allI impI)
      show "UserCallbackCall \<in> set (calls (commitAndCallback (Some cb) e w ?cs))
        \<longleftrightarrow> NextCall \<in> set (calls (commitAndCallback (Some cb) e w ?cs))
            \<and> fst (Next e w) = None"
        using i n by blast
    next
      fix err w1
      assume a: "NextCall \<in> set (calls (commitAndCallback (Some cb) e w ?cs))
          \<and> Next e w = (Some err, w1)"
      then have f: "commitAndCallback (Some cb) e w ?cs =
         \<lparr>returned = Return (Some (Errorf_w
            ''failed to commit record changes via e.Next() after immutability checks: '' err)),
          calls = ?cs @ [NextCall], world = w1\<rparr>"
        by (simp add: commitAndCallback_commit_failed)
      show "returned (commitAndCallback (Some cb) e w ?cs) = Return (Some (WrapError
            (''failed to commit record changes via e.Next() after immutability checks: ''
               @ errorMessage err) err))"
        by (simp add: f Errorf_w_def)
      show "UserCallbackCall \<notin> set (calls (commitAndCallback (Some cb) e w ?cs))"
        by (simp add: f)
      show "world (commitAndCallback (Some cb) e w ?cs) = w1"
        by (simp add: f)
    next
      fix w1 err w2
      assume a: "NextCall \<in> set (calls (commitAndCallback (Some cb) e w ?cs))
          \<and> Next e w = (None, w1) \<and> cb e w1 = (Some err, w2)"
      then have f: "commitAndCallback (Some cb) e w ?cs =
         \<lparr>returned = Return (Some (Errorf_w
            ''user callback failed AFTER record commit: '' err)),
          calls = ?cs @ [NextCall, UserCallbackCall], world = w2\<rparr>"
        by (simp add: commitAndCallback_callback_failed)
      show "returned (commitAndCallback (Some cb) e w ?cs) = Return (Some (WrapError
            (''user callback failed AFTER record commit: '' @ errorMessage err) err))"
        by (simp add: f Errorf_w_def)
      show "world (commitAndCallback (Some cb) e w ?cs) = w2"
        by (simp add: f)
    next
      fix w1 w2
      assume a: "NextCall \<in> set (calls (commitAndCallback (Some cb) e w ?cs))
          \<and> Next e w = (None, w1) \<and> cb e w1 = (None, w2)"
      then have f: "commitAndCallback (Some cb) e w ?cs =
         \<lparr>returned = Return None,
          calls = ?cs @ [NextCall, UserCallbackCall], world = w2\<rparr>"
        by (simp add: commitAndCallback_callback_ok)
      show "returned (commitAndCallback (Some cb) e w ?cs) = Return None"
        by (simp add: f)
      show "world (commitAndCallback (Some cb) e w ?cs) = w2"
        by (simp add: f)
    qed
  qed
qed

lemma testEvent_name_run:
  "hook [''name''] cb None
     (testEvent [(''name'', VStr ''x''), (''status'', VStr ''active'')]
                [(''name'', VStr ''x''), (''status'', VStr ''inactive'')] commitResult) w
   = commitAndCallback cb
       (testEvent [(''name'', VStr ''x''), (''status'', VStr ''active'')]
                  [(''name'', VStr ''x''), (''status'', VStr ''inactive'')] commitResult) w
       [FindRecordByIdCall ''c1'' ''r1'']"
  using hook_checked [OF testEvent_simps(1) testEvent_simps(2) testRecord_simps(2)
      testApp_found, of "[''name'']" cb "[(''name'', VStr ''x''), (''status'', VStr ''active'')]"
      "[(''name'', VStr ''x''), (''status'', VStr ''inactive'')]" commitResult w]
  by (simp add: fieldsToCheck_def testRecord_simps testCollection_def)

theorem callback_iff_commit_succeeded_witness:
  "returned (MakeImmutable [AString ''name'', AFunc (Some failingCallback)]
      (testEvent [(''name'', VStr ''x''), (''status'', VStr ''active'')]
                 [(''name'', VStr ''x''), (''status'', VStr ''inactive'')] None) 0)
     = Return (Some (WrapError
         ''user callback failed AFTER record commit: callback_forced_error''
         (ErrorString ''callback_forced_error'')))
   \<and> world (MakeImmutable [AString ''name'', AFunc (Some failingCallback)]
      (testEvent [(''name'', VStr ''x''), (''status'', VStr ''active'')]
                 [(''name'', VStr ''x''), (''status'', VStr ''inactive'')] None) 0) = 11
   \<and> returned (MakeImmutable [AString ''name'', AFunc (Some okCallback)]
      (testEvent [(''name'', VStr ''x''), (''status'', VStr ''active'')]
                 [(''name'', VStr ''x''), (''status'', VStr ''inactive'')]
                 (Some (ErrorString ''database is locked''))) 0)
     = Return (Some (WrapError
         ''failed to commit record changes via e.Next() after immutability checks: database is locked''
         (ErrorString ''database is locked'')))
   \<and> UserCallbackCall \<notin> set (calls (MakeImmutable [AString ''name'', AFunc (Some okCallback)]
      (testEvent [(''name'', VStr ''x''), (''status'', VStr ''active'')]
                 [(''name'', VStr ''x''), (''status'', VStr ''inactive'')]
                 (Some (ErrorString ''database is locked''))) 0))
   \<and> returned (MakeImmutable [AString ''name'', AFunc (Some okCallback)]
      (testEvent [(''name'', VStr ''x''), (''status'', VStr ''active'')]
                 [(''name'', VStr ''x''), (''status'', VStr ''inactive'')] None) 0)
     = Return None
   \<and> UserCallbackCall \<in> set (calls (MakeImmutable [AString ''name'', AFunc (Some okCallback)]
      (testEvent [(''name'', VStr ''x''), (''status'', VStr ''active'')]
                 [(''name'', VStr ''x''), (''status'', VStr ''inactive'')] None) 0))"
proof -
  let ?S = "[(''name'', VStr ''x''), (''status'', VStr ''active'')]"
  let ?A = "[(''name'', VStr ''x''), (''status'', VStr ''inactive'')]"
  let ?locked = "ErrorString ''database is locked''"
  have pf: "parseArgs 0 [AString ''name'', AFunc (Some failingCallback)] [] None
      = ([''name''], Some failingCallback, None)"
    by simp
  have po: "parseArgs 0 [AString ''name'', AFunc (Some okCallback)] [] None
      = ([''name''], Some okCallback, None)"
    by simp
  have nf: "NextCall \<in> set (calls (MakeImmutable [AString ''name'', AFunc (Some failingCallback)]
      (testEvent ?S ?A None) 0))"
    by (simp add: MakeImmutable_def testEvent_name_run commitAndCallback_calls)
  have no: "NextCall \<in> set (calls (MakeImmutable [AString ''name'', AFunc (Some okCallback)]
      (testEvent ?S ?A commitResult) 0))" for commitResult
    by (simp add: MakeImmutable_def testEvent_name_run commitAndCallback_calls)
  note tf = callback_iff_commit_succeeded [OF pf, of "testEvent ?S ?A None" 0]
  note tl = callback_iff_commit_succeeded [OF po, of "testEvent ?S ?A (Some ?locked)" 0]
  note to = callback_iff_commit_succeeded [OF po, of "testEvent ?S ?A None" 0]
  have f1: "Next (testEvent ?S ?A None) 0 = (None, 1)"
    by (simp add: testEvent_simps)
  have f2: "failingCallback (testEvent ?S ?A None) 1
      = (Some (ErrorString ''callback_forced_error''), 11)"
    by (simp add: failingCallback_def)
  have f3: "okCallback (testEvent ?S ?A None) 1 = (None, 11)"
    by (simp add: okCallback_def)
  have f4: "Next (testEvent ?S ?A (Some ?locked)) 0 = (Some ?locked, 1)"
    by (simp add: testEvent_simps)
  from tf [THEN conjunct2, THEN conjunct2, THEN conjunct1, THEN spec, THEN spec, THEN spec,
      THEN mp, OF conjI [OF nf conjI [OF f1 f2]]]
  have a: "returned (MakeImmutable [AString ''name'', AFunc (Some failingCallback)]
      (testEvent ?S ?A None) 0)
     = Return (Some (WrapError
         ''user callback failed AFTER record commit: callback_forced_error''
         (ErrorString ''callback_forced_error'')))
     \<and> world (MakeImmutable [AString ''name'', AFunc (Some failingCallback)]
      (testEvent ?S ?A None) 0) = 11"
    by simp
  from tl [THEN conjunct2, THEN conjunct1, THEN spec, THEN spec, THEN mp,
      OF conjI [OF no f4]]
  have b: "returned (MakeImmutable [AString ''name'', AFunc (Some okCallback)]
      (testEvent ?S ?A (Some ?locked)) 0)
     = Return (Some (WrapError
         ''failed to commit record changes via e.Next() after immutability checks: database is locked''
         ?locked))
     \<and> UserCallbackCall \<notin> set (calls (MakeImmutable [AString ''name'', AFunc (Some okCallback)]
      (testEvent ?S ?A (Some ?locked)) 0))"
    by simp
  from to [THEN conjunct2, THEN conjunct2, THEN conjunct2, THEN spec, THEN spec, THEN mp,
      OF conjI [OF no conjI [OF f1 f3]]]
  have c: "returned (MakeImmutable [AString ''name'', AFunc (Some okCallback)]
      (testEvent ?S ?A None) 0) = Return None"
    by simp
  from to [THEN conjunct1] no [of None] f1
  have d: "UserCallbackCall \<in> set (calls (MakeImmutable [AString ''name'', AFunc (Some okCallback)]
      (testEvent ?S ?A None) 0))"
    by simp
  from a b c d show ?thesis by blast
qed

section \<open>The parse of the arguments\<close>

lemma parseArgs_strings:
  "parseArgs i (map AString xs @ rest) names cb
     = parseArgs (i + length xs) rest (names @ xs) cb"
  by (induction xs arbitrary: i names) simp_all

lemma parseArgs_append:
  "parseArgs i (xs @ ys) names cb =
     (case parseArgs i xs names cb of
        (names', cb', Some perr) \<Rightarrow> (names', cb', Some perr)
      | (names', cb', None) \<Rightarrow> parseArgs (i + length xs) ys names' cb')"
proof (induction xs arbitrary: i names cb)
  case Nil
  then show ?case by simp
next
  case (Cons a xs)
  show ?case
  proof (cases a)
    case (AString v)
    then show ?thesis using Cons.IH [of "Suc i" "names @ [v]" cb]
      by (simp split: prod.splits option.splits)
  next
    case (AFunc v)
    then show ?thesis using Cons.IH [of "Suc i" names v]
      by (cases cb) (simp_all split: prod.splits option.splits)
  next
    case (AOther T)
    then show ?thesis by simp
  qed
qed

lemma parseArgs_names:
  "parseArgs i args names cb = (names', cb', None) \<Longrightarrow>
     set names' = set names \<union> {s. AString s \<in> set args}"
proof (induction args arbitrary: i names cb)
  case Nil
  then show ?case by simp
next
  case (Cons a args)
  show ?case
  proof (cases a)
    case (AString v)
    with Cons.prems Cons.IH [of "Suc i" "names @ [v]" cb] show ?thesis by auto
  next
    case (AFunc v)
    with Cons.prems Cons.IH [of "Suc i" names v] show ?thesis by (cases cb) auto
  next
    case (AOther T)
    with Cons.prems show ?thesis by simp
  qed
qed

text \<open>
  Two lists with two arguments of the callback's type that do not end in the error of the
  second callback: an argument of another type before them stops the parse first, and a
  nil function first leaves the callback unset, so that the second one is accepted.
\<close>

theorem second_callback_counterexample:
  "MakeImmutable [AOther ''int'', AFunc (Some okCallback), AFunc (Some okCallback)]
     (testEvent [] [] None) 0
     = \<lparr>returned = Return (Some (ApiError 400
          ''MakeImmutable setup error: pbimmutable.MakeImmutable: invalid argument type int at position 0''
          NoData)),
        calls = [], world = 0\<rparr>
   \<and> parseArgs 0 [AFunc None, AFunc (Some okCallback)] [] None = ([], Some okCallback, None)"
  by (simp add: MakeImmutable_def hook_parseError NewBadRequestError_def
      showNat.simps [of 0] digit_def)

text \<open>
  C4, as the code has it. For a list of arguments in which a second argument of the
  callback's type comes after strings and exactly one callback that is not nil, in any
  order: the parse returns (the model has no other outcome), with the names before the
  second callback, the first callback and the error
  \<open>only one callback function can be provided\<close>; and every run of the hook returns
  that error as a setup error, with no call made.
\<close>

theorem second_callback_configuration_error:
  assumes "args = map AString xs @ AFunc (Some c1) # map AString ys @ AFunc c2 # post"
  shows
    "parseArgs 0 args [] None =
       (xs @ ys, Some c1,
        Some (ErrorString
          ''pbimmutable.MakeImmutable: only one callback function can be provided''))
     \<and> MakeImmutable args e w =
       \<lparr>returned = Return (Some (NewBadRequestError
          ''MakeImmutable setup error: pbimmutable.MakeImmutable: only one callback function can be provided''
          NoData)),
        calls = [], world = w\<rparr>"
proof -
  have p: "parseArgs 0 args [] None =
       (xs @ ys, Some c1,
        Some (ErrorString
          ''pbimmutable.MakeImmutable: only one callback function can be provided''))"
    unfolding assms by (simp add: parseArgs_strings)
  then show ?thesis
    by (simp add: MakeImmutable_def hook_parseError)
qed

theorem second_callback_configuration_error_witness:
  "parseArgs 0 [AString ''f1'', AString ''f2'', AFunc (Some okCallback),
                AFunc (Some failingCallback)] [] None
     = ([''f1'', ''f2''], Some okCallback,
        Some (ErrorString
          ''pbimmutable.MakeImmutable: only one callback function can be provided''))
   \<and> MakeImmutable [AString ''f1'', AString ''f2'', AFunc (Some okCallback),
                    AFunc (Some failingCallback)]
       (testEvent [(''f1'', VInt KInt 1)] [(''f1'', VInt KInt 2)] None) 0
     = \<lparr>returned = Return (Some (ApiError 400
          ''MakeImmutable setup error: pbimmutable.MakeImmutable: only one callback function can be provided''
          NoData)),
        calls = [], world = 0\<rparr>"
proof -
  have a: "[AString ''f1'', AString ''f2'', AFunc (Some okCallback), AFunc (Some failingCallback)]
      = map AString [''f1'', ''f2''] @ AFunc (Some okCallback) # map AString []
          @ AFunc (Some failingCallback) # []"
    by simp
  from second_callback_configuration_error [OF a,
      of "testEvent [(''f1'', VInt KInt 1)] [(''f1'', VInt KInt 2)] None" 0]
  show ?thesis by (simp add: NewBadRequestError_def)
qed

lemma checkFields_repeat:
  assumes "s \<in> set names"
  shows "checkFields (names @ [s]) originalRecord r = checkFields names originalRecord r"
proof (cases "checkFields names originalRecord r")
  case None
  then have "s = SystemFieldUpdated \<or> DeepEqual (Get originalRecord s) (Get r s)"
    using assms by (simp add: checkFields_None_iff)
  then have "checkFields [s] originalRecord r = None"
    unfolding checkFields_None_iff by simp
  with None show ?thesis by (simp add: checkFields_append)
next
  case (Some err)
  then show ?thesis by (simp add: checkFields_append)
qed

lemma hook_cong_fields:
  assumes "\<And>originalRecord r. checkFields (fieldsToCheck names r) originalRecord r
             = checkFields (fieldsToCheck names' r) originalRecord r"
  shows "hook names cb perr e w = hook names' cb perr e w"
  unfolding hook_def by (simp add: assms split: option.splits sum.splits)

text \<open>
  C9. Appending a string that is already among the arguments gives the same hook: the
  same result, calls and state on every event.
\<close>

theorem duplicate_name_noop:
  assumes "AString s \<in> set args"
  shows "MakeImmutable (args @ [AString s]) = MakeImmutable args"
proof -
  obtain names cb perr where p: "parseArgs 0 args [] None = (names, cb, perr)"
    by (cases "parseArgs 0 args [] None") auto
  show ?thesis
  proof (cases perr)
    case (Some pe)
    with p have "parseArgs 0 (args @ [AString s]) [] None = (names, cb, Some pe)"
      by (simp add: parseArgs_append)
    with p Some show ?thesis by (simp add: MakeImmutable_def)
  next
    case None
    with p have p': "parseArgs 0 (args @ [AString s]) [] None = (names @ [s], cb, None)"
      by (simp add: parseArgs_append)
    from p None assms have s: "s \<in> set names"
      using parseArgs_names [of 0 args "[]" None names cb] by simp
    then have ne: "names \<noteq> []" by auto
    have "hook (names @ [s]) cb None e w = hook names cb None e w" for e w
    proof (rule hook_cong_fields)
      fix originalRecord r
      show "checkFields (fieldsToCheck (names @ [s]) r) originalRecord r
          = checkFields (fieldsToCheck names r) originalRecord r"
        using ne by (simp add: fieldsToCheck_def checkFields_repeat [OF s])
    qed
    then have "hook (names @ [s]) cb None = hook names cb None" by (intro ext)
    with p p' None show ?thesis by (simp add: MakeImmutable_def)
  qed
qed

theorem duplicate_name_noop_witness:
  "MakeImmutable [AString ''name'', AFunc (Some okCallback), AString ''name'']
     = MakeImmutable [AString ''name'', AFunc (Some okCallback)]"
proof -
  have "AString ''name'' \<in> set [AString ''name'', AFunc (Some okCallback)]" by simp
  from duplicate_name_noop [OF this] show ?thesis by simp
qed

section \<open>The two versions of \<^verbatim>\<open>MakeImmutable\<close>\<close>

lemma parseArgs_only_strings:
  "parseArgs 0 (map AString names) [] None = (names, None, None)"
  using parseArgs_strings [of 0 names "[]" "[]" None] by simp

lemma MakeImmutable_strings_checked:
  assumes "Record e = Some r" and "App e = Some app" and "RecordCollection r = Some c"
    and "app (CollectionId c) (RecordId r) w = Inr originalRecord"
  shows "MakeImmutable_strings names e w =
     (case checkFields (fieldsToCheck names r) originalRecord r of
        Some verr \<Rightarrow>
          \<lparr>returned = Return (Some verr),
           calls = [FindRecordByIdCall (CollectionId c) (RecordId r)], world = w\<rparr>
      | None \<Rightarrow>
          \<lparr>returned = Return None,
           calls = [FindRecordByIdCall (CollectionId c) (RecordId r)], world = w\<rparr>)"
  unfolding MakeImmutable_strings_def using assms by simp

text \<open>
  When the lookup of the original record fails, the two versions of \<^verbatim>\<open>MakeImmutable\<close>
  return errors with different messages.
\<close>

theorem fetch_error_message_counterexample:
  "returned (MakeImmutable [AString ''name''] failedEvent 0)
     = Return (Some (ApiError 400
         ''Failed to fetch original record r1 from collection test_items for immutability check.''
         (ErrData (ErrorString ''sql: no rows in result set''))))
   \<and> returned (MakeImmutable_strings [''name''] failedEvent 0)
     = Return (Some (ApiError 400
         ''Failed to fetch original record r1 from collection test_items.''
         (ErrData (ErrorString ''sql: no rows in result set''))))
   \<and> returned (MakeImmutable [AString ''name''] failedEvent 0)
     \<noteq> returned (MakeImmutable_strings [''name''] failedEvent 0)"
  by (simp add: MakeImmutable_def MakeImmutable_strings_def hook_def failedEvent_def
      testRecord_simps testCollection_def NewBadRequestError_def)

text \<open>
  C10, as the code has it. For every list of names and every event, the hook of the
  variadic version built from the names and the hook of the strings-only version relate
  as follows. When the lookup of the original record fails, both return a bad-request
  error that holds the error of the lookup, after the same call, each with its own
  message. When the strings-only version returns any other error or panics, the variadic
  version does the same, with the same calls and state; and when the variadic version
  returns an error that is neither of the lookup nor a wrapped one, the strings-only
  version returns the same. When the strings-only version returns nil, the variadic
  version goes on to \<^verbatim>\<open>e.Next()\<close>.
\<close>

theorem implementations_agree_on_denial:
  "(\<forall>r app c err. Record e = Some r \<and> App e = Some app \<and> RecordCollection r = Some c
        \<and> app (CollectionId c) (RecordId r) w = Inl err \<longrightarrow>
      MakeImmutable_strings names e w =
        \<lparr>returned = Return (Some (NewBadRequestError
           (''Failed to fetch original record '' @ RecordId r @ '' from collection ''
              @ CollectionName c @ ''.'') (ErrData err))),
         calls = [FindRecordByIdCall (CollectionId c) (RecordId r)], world = w\<rparr>
      \<and> MakeImmutable (map AString names) e w =
        \<lparr>returned = Return (Some (NewBadRequestError
           (''Failed to fetch original record '' @ RecordId r @ '' from collection ''
              @ CollectionName c @ '' for immutability check.'') (ErrData err))),
         calls = [FindRecordByIdCall (CollectionId c) (RecordId r)], world = w\<rparr>)
   \<and> ((\<forall>m err. returned (MakeImmutable_strings names e w)
          \<noteq> Return (Some (NewBadRequestError m (ErrData err))))
        \<and> returned (MakeImmutable_strings names e w) \<noteq> Return None \<longrightarrow>
      MakeImmutable (map AString names) e w = MakeImmutable_strings names e w)
   \<and> ((\<forall>m err. returned (MakeImmutable (map AString names) e w)
          \<noteq> Return (Some (NewBadRequestError m (ErrData err))))
        \<and> (\<forall>m err. returned (MakeImmutable (map AString names) e w)
          \<noteq> Return (Some (WrapError m err)))
        \<and> returned (MakeImmutable (map AString names) e w) \<noteq> Return None \<longrightarrow>
      MakeImmutable_strings names e w = MakeImmutable (map AString names) e w)
   \<and> (returned (MakeImmutable_strings names e w) = Return None \<longrightarrow>
      MakeImmutable (map AString names) e w =
        commitAndCallback None e w (calls (MakeImmutable_strings names e w)))"
proof -
  let ?V = "MakeImmutable (map AString names) e w"
  let ?S = "MakeImmutable_strings names e w"
  have run: "?V = hook names None None e w"
    by (simp add: MakeImmutable_def parseArgs_only_strings)
  have fetch: "?S = \<lparr>returned = Return (Some (NewBadRequestError
           (''Failed to fetch original record '' @ RecordId r @ '' from collection ''
              @ CollectionName c @ ''.'') (ErrData err))),
         calls = [FindRecordByIdCall (CollectionId c) (RecordId r)], world = w\<rparr>
      \<and> ?V = \<lparr>returned = Return (Some (NewBadRequestError
           (''Failed to fetch original record '' @ RecordId r @ '' from collection ''
              @ CollectionName c @ '' for immutability check.'') (ErrData err))),
         calls = [FindRecordByIdCall (CollectionId c) (RecordId r)], world = w\<rparr>"
    if "Record e = Some r \<and> App e = Some app \<and> RecordCollection r = Some c
        \<and> app (CollectionId c) (RecordId r) w = Inl err" for r app c err
    using that by (simp add: run hook_fetch_failed MakeImmutable_strings_def)
  have rest: "(?V = ?S \<and> returned ?S \<noteq> Return None
                \<and> (\<forall>m err. returned ?V \<noteq> Return (Some (WrapError m err))))
      \<or> (\<exists>m m' err. returned ?S = Return (Some (NewBadRequestError m (ErrData err)))
            \<and> returned ?V = Return (Some (NewBadRequestError m' (ErrData err))))
      \<or> (returned ?S = Return None \<and> ?V = commitAndCallback None e w (calls ?S))"
  proof (cases "Record e")
    case None
    then show ?thesis
      by (simp add: run hook_no_Record MakeImmutable_strings_def NewBadRequestError_def)
  next
    case (Some r)
    note r = this
    show ?thesis
    proof (cases "App e")
      case None
      then show ?thesis
        by (simp add: run hook_no_App [OF r] MakeImmutable_strings_def r NewBadRequestError_def)
    next
      case (Some app)
      note app = this
      show ?thesis
      proof (cases "RecordCollection r")
        case None
        then show ?thesis
          by (simp add: run hook_no_Collection [OF r app] MakeImmutable_strings_def r app)
      next
        case (Some c)
        note c = this
        show ?thesis
        proof (cases "app (CollectionId c) (RecordId r) w")
          case (Inl err)
          with fetch [of r app c err] r app c
          have "returned ?S = Return (Some (NewBadRequestError
               (''Failed to fetch original record '' @ RecordId r @ '' from collection ''
                  @ CollectionName c @ ''.'') (ErrData err)))
            \<and> returned ?V = Return (Some (NewBadRequestError
               (''Failed to fetch original record '' @ RecordId r @ '' from collection ''
                  @ CollectionName c @ '' for immutability check.'') (ErrData err)))"
            by simp
          then show ?thesis by blast
        next
          case (Inr originalRecord)
          note h = hook_checked [OF r app c Inr, of names None]
          note s = MakeImmutable_strings_checked [OF r app c Inr, of names]
          show ?thesis
          proof (cases "checkFields (fieldsToCheck names r) originalRecord r")
            case None
            with h s show ?thesis by (simp add: run)
          next
            case (Some verr)
            then obtain n where "verr = immutableFieldError n r"
              using checkFields_Some_name by blast
            with Some h s show ?thesis by (simp add: run)
          qed
        qed
      qed
    qed
  qed
  have wrap: "returned (commitAndCallback None e w cs) = Return None
      \<or> (\<exists>m err. returned (commitAndCallback None e w cs) = Return (Some (WrapError m err)))"
    for cs
    by (rule commitAndCallback_returned)
  show ?thesis
  proof (intro conjI allI impI)
    fix r app c err
    assume a: "Record e = Some r \<and> App e = Some app \<and> RecordCollection r = Some c
        \<and> app (CollectionId c) (RecordId r) w = Inl err"
    from fetch [OF a] show "?S = \<lparr>returned = Return (Some (NewBadRequestError
           (''Failed to fetch original record '' @ RecordId r @ '' from collection ''
              @ CollectionName c @ ''.'') (ErrData err))),
         calls = [FindRecordByIdCall (CollectionId c) (RecordId r)], world = w\<rparr>"
      by blast
    from fetch [OF a] show "?V = \<lparr>returned = Return (Some (NewBadRequestError
           (''Failed to fetch original record '' @ RecordId r @ '' from collection ''
              @ CollectionName c @ '' for immutability check.'') (ErrData err))),
         calls = [FindRecordByIdCall (CollectionId c) (RecordId r)], world = w\<rparr>"
      by blast
  next
    assume "(\<forall>m err. returned ?S \<noteq> Return (Some (NewBadRequestError m (ErrData err))))
        \<and> returned ?S \<noteq> Return None"
    with rest show "?V = ?S" by blast
  next
    assume a: "(\<forall>m err. returned ?V \<noteq> Return (Some (NewBadRequestError m (ErrData err))))
        \<and> (\<forall>m err. returned ?V \<noteq> Return (Some (WrapError m err)))
        \<and> returned ?V \<noteq> Return None"
    from rest show "?S = ?V"
    proof (elim disjE)
      assume "?V = ?S \<and> returned ?S \<noteq> Return None
                \<and> (\<forall>m err. returned ?V \<noteq> Return (Some (WrapError m err)))"
      then show ?thesis by simp
    next
      assume "\<exists>m m' err. returned ?S = Return (Some (NewBadRequestError m (ErrData err)))
            \<and> returned ?V = Return (Some (NewBadRequestError m' (ErrData err)))"
      with a show ?thesis by blast
    next
      assume b: "returned ?S = Return None \<and> ?V = commitAndCallback None e w (calls ?S)"
      with wrap [of "calls ?S"] a show ?thesis by metis
    qed
  next
    assume "returned ?S = Return None"
    with rest show "?V = commitAndCallback None e w (calls ?S)"
      by (auto simp: NewBadRequestError_def)
  qed
qed

theorem implementations_agree_on_denial_witness:
  "MakeImmutable (map AString [''name''])
     (testEvent [(''name'', VStr ''x''), (''status'', VStr ''active'')]
                [(''name'', VStr ''y''), (''status'', VStr ''active'')] None) 0
     = MakeImmutable_strings [''name'']
     (testEvent [(''name'', VStr ''x''), (''status'', VStr ''active'')]
                [(''name'', VStr ''y''), (''status'', VStr ''active'')] None) 0
   \<and> MakeImmutable_strings [''name'']
     (testEvent [(''name'', VStr ''x''), (''status'', VStr ''active'')]
                [(''name'', VStr ''y''), (''status'', VStr ''active'')] None) 0
     = \<lparr>returned = Return (Some (immutableFieldError ''name''
          (testRecord [(''name'', VStr ''y''), (''status'', VStr ''active'')]))),
        calls = [FindRecordByIdCall ''c1'' ''r1''], world = 0\<rparr>
   \<and> MakeImmutable_strings [''name'']
     (testEvent [(''name'', VStr ''x''), (''status'', VStr ''active'')]
                [(''name'', VStr ''x''), (''status'', VStr ''inactive'')] None) 0
     = \<lparr>returned = Return None, calls = [FindRecordByIdCall ''c1'' ''r1''], world = 0\<rparr>
   \<and> MakeImmutable (map AString [''name''])
     (testEvent [(''name'', VStr ''x''), (''status'', VStr ''active'')]
                [(''name'', VStr ''x''), (''status'', VStr ''inactive'')] None) 0
     = \<lparr>returned = Return None, calls = [FindRecordByIdCall ''c1'' ''r1'', NextCall],
        world = 1\<rparr>
   \<and> returned (MakeImmutable (map AString [''name'']) failedEvent 0)
     = Return (Some (ApiError 400
         ''Failed to fetch original record r1 from collection test_items for immutability check.''
         (ErrData (ErrorString ''sql: no rows in result set''))))"
proof -
  let ?S = "[(''name'', VStr ''x''), (''status'', VStr ''active'')]"
  let ?B = "[(''name'', VStr ''y''), (''status'', VStr ''active'')]"
  let ?A = "[(''name'', VStr ''x''), (''status'', VStr ''inactive'')]"
  have sB: "MakeImmutable_strings [''name''] (testEvent ?S ?B None) 0
     = \<lparr>returned = Return (Some (immutableFieldError ''name'' (testRecord ?B))),
        calls = [FindRecordByIdCall ''c1'' ''r1''], world = 0\<rparr>"
    using MakeImmutable_strings_checked [OF testEvent_simps(1) testEvent_simps(2)
        testRecord_simps(2) testApp_found, of "[''name'']" ?S ?B None 0]
    by (simp add: fieldsToCheck_def testRecord_simps testCollection_def SystemFieldUpdated_def)
  have sA: "MakeImmutable_strings [''name''] (testEvent ?S ?A None) 0
     = \<lparr>returned = Return None, calls = [FindRecordByIdCall ''c1'' ''r1''], world = 0\<rparr>"
    using MakeImmutable_strings_checked [OF testEvent_simps(1) testEvent_simps(2)
        testRecord_simps(2) testApp_found, of "[''name'']" ?S ?A None 0]
    by (simp add: fieldsToCheck_def testRecord_simps testCollection_def)
  note tB = implementations_agree_on_denial [of "testEvent ?S ?B None" 0 "[''name'']"]
  note tA = implementations_agree_on_denial [of "testEvent ?S ?A None" 0 "[''name'']"]
  note tF = implementations_agree_on_denial [of failedEvent 0 "[''name'']"]
  have hB: "(\<forall>m err. returned (MakeImmutable_strings [''name''] (testEvent ?S ?B None) 0)
          \<noteq> Return (Some (NewBadRequestError m (ErrData err))))
        \<and> returned (MakeImmutable_strings [''name''] (testEvent ?S ?B None) 0) \<noteq> Return None"
    by (simp add: sB)
  from tB [THEN conjunct2, THEN conjunct1, THEN mp, OF hB]
  have a: "MakeImmutable (map AString [''name'']) (testEvent ?S ?B None) 0
     = MakeImmutable_strings [''name''] (testEvent ?S ?B None) 0" .
  have hA: "returned (MakeImmutable_strings [''name''] (testEvent ?S ?A None) 0) = Return None"
    by (simp add: sA)
  from tA [THEN conjunct2, THEN conjunct2, THEN conjunct2, THEN mp, OF hA]
  have b: "MakeImmutable (map AString [''name'']) (testEvent ?S ?A None) 0
     = \<lparr>returned = Return None, calls = [FindRecordByIdCall ''c1'' ''r1'', NextCall],
        world = 1\<rparr>"
    by (simp add: sA commitAndCallback_def testEvent_simps)
  have hF: "Record failedEvent = Some (testRecord [(''name'', VStr ''x'')])
      \<and> App failedEvent
          = Some (\<lambda>collectionId recordId w. Inl (ErrorString ''sql: no rows in result set''))
      \<and> RecordCollection (testRecord [(''name'', VStr ''x'')]) = Some testCollection
      \<and> (\<lambda>collectionId recordId w. Inl (ErrorString ''sql: no rows in result set''))
           (CollectionId testCollection) (RecordId (testRecord [(''name'', VStr ''x'')])) (0::nat)
          = Inl (ErrorString ''sql: no rows in result set'')"
    by (simp add: failedEvent_def testRecord_simps)
  from tF [THEN conjunct1, THEN spec, THEN spec, THEN spec, THEN spec, THEN mp, OF hF,
      THEN conjunct2]
  have c: "returned (MakeImmutable (map AString [''name'']) failedEvent 0)
     = Return (Some (ApiError 400
         ''Failed to fetch original record r1 from collection test_items for immutability check.''
         (ErrData (ErrorString ''sql: no rows in result set''))))"
    by (simp add: NewBadRequestError_def testRecord_simps testCollection_def)
  from a sB sA b c show ?thesis by blast
qed

end
